theory Spec2Isabelle
  imports Complex_Main
begin

section \<open>Data model\<close>

text \<open>
  The repository works on pandas data frames. A frame is modelled by the list of its
  column names together with the list of its rows; a numeric cell is a \<open>rat option\<close>,
  where \<open>None\<close> stands for NaN (a missing value) and \<open>Some q\<close> for the number
  \<open>q\<close>. Numbers are exact rationals: rounding of binary floating point is outside the
  model, so \<open>1e-9\<close> is the rational \<open>1 / 10^9\<close>. Timestamps are integers
  (nanoseconds since the epoch, the representation of \<open>pd.Timestamp\<close>); a hedge
  timestamp may be \<open>NaT\<close>, which is \<open>None\<close>. An exception that the source
  does not catch is a value: a function that can raise returns \<open>Inl\<close> of the
  exception or \<open>Inr\<close> of its result.
\<close>

subsection \<open>Hedge (fill event) frame\<close>

text \<open>
  \<open>matching_engine.py\<close> reads the columns \<open>CLORDID\<close>, \<open>SIDE\<close>,
  \<open>EXEC_PRICE\<close> and \<open>hedge_time\<close> of a hedge row without testing for their
  presence, and tests for \<open>EXECTYPE\<close> and \<open>CUMQTY\<close> before reading them. The
  first four are therefore fields every row has; the presence of the last two is a flag
  of the frame. The order identifier \<open>CLORDID\<close> is a string that is always present
  (the hedge preparation step keeps it, and the matcher only compares it for equality);
  every other field may be missing.
\<close>

record hedge_row =
  CLORDID :: string
  SIDE :: "rat option"
  EXECTYPE :: "rat option"
  CUMQTY :: "rat option"
  EXEC_PRICE :: "rat option"
  hedge_time :: "int option"

record hedge_frame =
  has_EXECTYPE :: bool
  has_CUMQTY :: bool
  h_rows :: "hedge_row list"

subsection \<open>Limit order book frame\<close>

text \<open>
  A snapshot row carries its timestamp (column \<open>Date-Time\<close>, renamed to
  \<open>lob_time\<close> by the preparation step), the instrument code (column
  \<open>Alias Underlying RIC\<close>) and its numeric cells, looked up by column name. The
  names of the columns that exist are kept in the frame, as in pandas.
\<close>

record lob_row =
  lob_time :: int
  alias_ric :: string
  cells :: "string \<Rightarrow> rat option"

record lob_frame =
  lob_columns :: "string list"
  lob_rows :: "lob_row list"

text \<open>\<open>DataFrame.empty\<close>: no rows or no columns.\<close>

definition lob_empty :: "lob_frame \<Rightarrow> bool" where
  "lob_empty df \<longleftrightarrow> lob_rows df = [] \<or> lob_columns df = []"

subsection \<open>Match records and the report\<close>

datatype match_kind = exact | fuzzy

record match_record =
  matched_row :: lob_row
  original_lob_index :: nat
  matched_hedge_clordid :: string
  matched_hedge_exec_price :: rat
  matched_lob_price_at_level :: "rat option"
  matched_hedge_side :: "rat option"
  matched_hedge_exectype :: "rat option"
  matched_hedge_time :: "int option"
  matched_hedge_this_fill_size :: rat
  matched_lob_level_interacted :: int
  match_type :: match_kind

text \<open>
  The lines printed between \<open>--- Matching Engine Report ---\<close> and
  \<open>--- End Report ---\<close>. The percentage line is printed only under the guard
  \<open>num_input_hedge_fill_events > 0\<close>; otherwise a message without a number is
  printed, which is \<open>None\<close> here.
\<close>

record report =
  attempted :: nat
  total_matched :: nat
  exact_matches :: nat
  fuzzy_matches :: nat
  perc_fills_matched :: "rat option"

record engine_result =
  df_matched_result :: "match_record list"
  printed_report :: "report option"

section \<open>NaN-aware comparisons\<close>

text \<open>A comparison with NaN is false; arithmetic with NaN gives NaN.\<close>

definition num_eq :: "rat option \<Rightarrow> rat \<Rightarrow> bool" where
  "num_eq v c = (case v of None \<Rightarrow> False | Some x \<Rightarrow> x = c)"

definition num_gt :: "rat option \<Rightarrow> rat \<Rightarrow> bool" where
  "num_gt v c = (case v of None \<Rightarrow> False | Some x \<Rightarrow> c < x)"

definition num_sub :: "rat option \<Rightarrow> rat option \<Rightarrow> rat option" where
  "num_sub a b = (case a of None \<Rightarrow> None
                  | Some x \<Rightarrow> (case b of None \<Rightarrow> None | Some y \<Rightarrow> Some (x - y)))"

section \<open>Window locator: \<open>find_closest_lob_indexes\<close>\<close>

text \<open>
  \<open>Series.searchsorted\<close> is NumPy's binary search: \<open>side='left'\<close> moves right
  while the middle element is less than the key, \<open>side='right'\<close> while it is less
  than or equal.
\<close>

datatype search_side = left | right

fun side_cmp :: "search_side \<Rightarrow> int \<Rightarrow> int \<Rightarrow> bool" where
  "side_cmp left a key = (a < key)"
| "side_cmp right a key = (a \<le> key)"

function binsearch :: "search_side \<Rightarrow> int list \<Rightarrow> int \<Rightarrow> nat \<Rightarrow> nat \<Rightarrow> nat" where
  "binsearch sd arr key min_idx max_idx =
     (if min_idx < max_idx then
        (let mid_idx = min_idx + (max_idx - min_idx) div 2 in
         if side_cmp sd (arr ! mid_idx) key
         then binsearch sd arr key (mid_idx + 1) max_idx
         else binsearch sd arr key min_idx mid_idx)
      else min_idx)"
  by pat_completeness auto
termination
  by (relation "measure (\<lambda>(sd, arr, key, min_idx, max_idx). max_idx - min_idx)") auto

declare binsearch.simps [simp del]

definition searchsorted :: "int list \<Rightarrow> int \<Rightarrow> search_side \<Rightarrow> nat" where
  "searchsorted arr key sd = binsearch sd arr key 0 (length arr)"

text \<open>\<open>pd.Timedelta(seconds=1)\<close> in nanoseconds.\<close>

definition one_second :: int where
  "one_second = 1000000000"

text \<open>
  The arithmetic on timestamps can fail. A \<open>pd.Timestamp\<close> and a
  \<open>pd.Timedelta\<close> are 64-bit counts of nanoseconds, with the least 64-bit value
  reserved for \<open>NaT\<close>; an operation whose result does not fit raises
  \<open>OutOfBoundsDatetime\<close> (for a timestamp) or \<open>OutOfBoundsTimedelta\<close> (for a
  duration). Nothing in the repository catches either exception, so it ends the run.
\<close>

datatype py_error = OutOfBoundsDatetime | OutOfBoundsTimedelta

definition ts_min :: int where
  "ts_min = - 9223372036854775807"

definition ts_max :: int where
  "ts_max = 9223372036854775807"

definition ts_ok :: "int \<Rightarrow> bool" where
  "ts_ok x \<longleftrightarrow> ts_min \<le> x \<and> x \<le> ts_max"

text \<open>
  The forward threshold \<open>t_threshold\<close> is the number of nanoseconds that
  \<open>pd.Timedelta(seconds=t_threshold_seconds)\<close> stands for. The function returns the
  pair \<open>(-1, -1)\<close> as its error indication, as the source does. The two bounds are
  computed before the test for an empty book and outside the \<open>try\<close> block, in the
  order of the source: the lower bound, then the duration of the threshold, then the upper
  bound; each can raise. The \<open>except\<close> branch around the two searches also returns
  \<open>(-1, -1)\<close>; it needs timestamps that cannot be compared, which integers always
  can, so it has no counterpart here.
\<close>

definition find_closest_lob_indexes ::
  "hedge_frame \<Rightarrow> lob_frame \<Rightarrow> nat \<Rightarrow> int \<Rightarrow> py_error + int \<times> int" where
  "find_closest_lob_indexes df_h df_o hedge_irow t_threshold =
     (if hedge_irow \<ge> length (h_rows df_h) then Inr (-1, -1)
      else case hedge_time (h_rows df_h ! hedge_irow) of
        None \<Rightarrow> Inr (-1, -1)
      | Some t \<Rightarrow>
          if \<not> ts_ok (t - one_second) then Inl OutOfBoundsDatetime
          else if \<not> ts_ok t_threshold then Inl OutOfBoundsTimedelta
          else if \<not> ts_ok (t + t_threshold) then Inl OutOfBoundsDatetime
          else
            (let lower_bound = t - one_second;
                 upper_bound = t + t_threshold
             in if lob_empty df_o \<or> ''lob_time'' \<notin> set (lob_columns df_o) then Inr (-1, -1)
                else Inr (int (searchsorted (map lob_time (lob_rows df_o)) lower_bound left),
                          int (searchsorted (map lob_time (lob_rows df_o)) upper_bound right))))"

section \<open>Level matcher\<close>

subsection \<open>Column names \<open>f'L{n}{suffix}'\<close>\<close>

definition digit_char :: "nat \<Rightarrow> char" where
  "digit_char d = char_of (48 + d)"

function py_str :: "nat \<Rightarrow> string" where
  "py_str n = (if n < 10 then [digit_char n] else py_str (n div 10) @ [digit_char (n mod 10)])"
  by pat_completeness auto
termination
  by (relation "measure id") auto

declare py_str.simps [simp del]

definition level_col :: "nat \<Rightarrow> string \<Rightarrow> string" where
  "level_col lob_level_num suffix = ''L'' @ py_str lob_level_num @ suffix"

subsection \<open>Side mapping\<close>

text \<open>Price suffix, size suffix and sign of the reported level; \<open>None\<close> is the
  final \<open>else: continue\<close>.\<close>

definition side_columns :: "rat option \<Rightarrow> (string \<times> string \<times> int) option" where
  "side_columns sd =
     (if num_eq sd 1 then Some (''-AskPrice'', ''-AskSize'', 1)
      else if num_eq sd 2 then Some (''-BidPrice'', ''-BidSize'', -1)
      else None)"

subsection \<open>Fill size of one event\<close>

definition ord_size_this_fill :: "hedge_frame \<Rightarrow> nat \<Rightarrow> rat option" where
  "ord_size_this_fill df_h irow =
     (let current_hedge_event = h_rows df_h ! irow in
      if irow > 0 \<and> CLORDID current_hedge_event = CLORDID (h_rows df_h ! (irow - 1))
         \<and> has_CUMQTY df_h \<and> has_CUMQTY df_h
      then num_sub (CUMQTY current_hedge_event) (CUMQTY (h_rows df_h ! (irow - 1)))
      else if has_CUMQTY df_h \<and> num_gt (CUMQTY current_hedge_event) 0
      then CUMQTY current_hedge_event
      else Some 0)"

subsection \<open>Acceptance tests of the two passes\<close>

definition exact_accept :: "rat \<Rightarrow> rat \<Rightarrow> string \<Rightarrow> string \<Rightarrow> lob_row \<Rightarrow> bool" where
  "exact_accept exec_price ord_size lob_price_col lob_size_col matched_lob_row =
     (case cells matched_lob_row lob_price_col of
        None \<Rightarrow> False
      | Some p \<Rightarrow>
          \<bar>p - exec_price\<bar> < 1 / 1000000000 \<and>
          (case cells matched_lob_row lob_size_col of
             None \<Rightarrow> False
           | Some s \<Rightarrow> ord_size \<le> s))"

definition fuzzy_accept :: "rat \<Rightarrow> rat \<Rightarrow> rat \<Rightarrow> string \<Rightarrow> string \<Rightarrow> lob_row \<Rightarrow> bool" where
  "fuzzy_accept tick_size exec_price ord_size lob_price_col lob_size_col matched_lob_row =
     (case cells matched_lob_row lob_price_col of
        None \<Rightarrow> False
      | Some p \<Rightarrow>
          \<bar>p - exec_price\<bar> \<le> tick_size + 1 / 1000000000 \<and>
          (case cells matched_lob_row lob_size_col of
             None \<Rightarrow> False
           | Some s \<Rightarrow> ord_size \<le> s))"

subsection \<open>Level-major, then row-major traversal\<close>

text \<open>
  \<open>iterrows\<close> of the window \<open>df.iloc[start:end]\<close>: the rows in stored order, each
  with its index label. The prepared frame has the default index (the preparation step
  ends with \<open>reset_index(drop=True)\<close>), so the label of a row is its position.
\<close>

definition iloc_window :: "lob_frame \<Rightarrow> nat \<Rightarrow> nat \<Rightarrow> (nat \<times> lob_row) list" where
  "iloc_window df_o lob_start_idx lob_end_idx =
     drop lob_start_idx (take lob_end_idx (zip [0..<length (lob_rows df_o)] (lob_rows df_o)))"

text \<open>
  Both passes of the source are the same pair of nested loops and differ in the
  acceptance test only, which is the parameter \<open>accept\<close>. The inner loop breaks at
  the first accepted row (\<open>find\<close>), and the outer loop breaks as soon as the inner one
  has found a row. A level one of whose two columns is absent is skipped.
\<close>

fun scan_levels ::
  "(string \<Rightarrow> string \<Rightarrow> lob_row \<Rightarrow> bool) \<Rightarrow> string list \<Rightarrow> string \<Rightarrow> string \<Rightarrow>
   (nat \<times> lob_row) list \<Rightarrow> nat list \<Rightarrow> (nat \<times> nat \<times> lob_row) option" where
  "scan_levels accept columns lob_price_suffix lob_size_suffix window [] = None"
| "scan_levels accept columns lob_price_suffix lob_size_suffix window (lob_level_num # rest) =
     (let lob_price_col = level_col lob_level_num lob_price_suffix;
          lob_size_col = level_col lob_level_num lob_size_suffix
      in if lob_price_col \<notin> set columns \<or> lob_size_col \<notin> set columns
         then scan_levels accept columns lob_price_suffix lob_size_suffix window rest
         else (case find (\<lambda>(lob_original_idx, matched_lob_row).
                            accept lob_price_col lob_size_col matched_lob_row) window of
                 Some (lob_original_idx, matched_lob_row) \<Rightarrow>
                   Some (lob_level_num, lob_original_idx, matched_lob_row)
               | None \<Rightarrow>
                   scan_levels accept columns lob_price_suffix lob_size_suffix window rest))"

subsection \<open>One iteration of the main loop\<close>

text \<open>
  The outcome of one fill event: one constructor for each \<open>continue\<close> of the loop
  body, in the order of the source, one for an event that reaches the end of the body
  without a match, and one for a match.
\<close>

datatype outcome =
    NotAFillType
  | NoWindow
  | InvalidSide
  | BadFillSize
  | MissingPrice
  | Unmatched
  | Matched match_record

definition exectype_is_fill :: "rat option \<Rightarrow> bool" where
  "exectype_is_fill v \<longleftrightarrow> num_eq v 1 \<or> num_eq v 2"

text \<open>
  Pass 1 (exact) over levels 1 to 10, and pass 2 (fuzzy), again from level 1, only when
  pass 1 has found nothing. The result is the kind of the match, the level number, the
  index label of the row and the row.
\<close>

definition price_search ::
  "string list \<Rightarrow> (nat \<times> lob_row) list \<Rightarrow> string \<Rightarrow> string \<Rightarrow> rat \<Rightarrow> rat \<Rightarrow> rat \<Rightarrow>
   (match_kind \<times> nat \<times> nat \<times> lob_row) option" where
  "price_search columns lob_window_df lob_price_suffix lob_size_suffix
                exec_price ord_size tick_size =
     (case scan_levels (exact_accept exec_price ord_size) columns
             lob_price_suffix lob_size_suffix lob_window_df [1..<11] of
        Some (lob_level_num, lob_original_idx, row) \<Rightarrow>
          Some (exact, lob_level_num, lob_original_idx, row)
      | None \<Rightarrow>
          (case scan_levels (fuzzy_accept tick_size exec_price ord_size) columns
                  lob_price_suffix lob_size_suffix lob_window_df [1..<11] of
             Some (lob_level_num, lob_original_idx, row) \<Rightarrow>
               Some (fuzzy, lob_level_num, lob_original_idx, row)
           | None \<Rightarrow> None))"

text \<open>
  The dictionary built for an accepted row. The key \<open>matched_lob_price_at_level\<close> is
  written by the fuzzy pass only; \<open>current_hedge_event.get('EXECTYPE', np.nan)\<close> is
  NaN when the column is absent.
\<close>

definition match_details_dict ::
  "hedge_frame \<Rightarrow> hedge_row \<Rightarrow> string \<Rightarrow> int \<Rightarrow> rat \<Rightarrow> rat \<Rightarrow>
   match_kind \<Rightarrow> nat \<Rightarrow> nat \<Rightarrow> lob_row \<Rightarrow> match_record" where
  "match_details_dict df_h current_hedge_event lob_price_suffix matched_level_sign
                      exec_price ord_size kind lob_level_num lob_original_idx row =
     \<lparr>matched_row = row,
      original_lob_index = lob_original_idx,
      matched_hedge_clordid = CLORDID current_hedge_event,
      matched_hedge_exec_price = exec_price,
      matched_lob_price_at_level =
        (case kind of
           exact \<Rightarrow> None
         | fuzzy \<Rightarrow> cells row (level_col lob_level_num lob_price_suffix)),
      matched_hedge_side = SIDE current_hedge_event,
      matched_hedge_exectype =
        (if has_EXECTYPE df_h then EXECTYPE current_hedge_event else None),
      matched_hedge_time = hedge_time current_hedge_event,
      matched_hedge_this_fill_size = ord_size,
      matched_lob_level_interacted = matched_level_sign * int lob_level_num,
      match_type = kind\<rparr>"

text \<open>
  One iteration of the loop body. An exception raised by the locator is not caught and
  is the result of the iteration (\<open>Inl\<close>); otherwise the iteration ends with one of
  the outcomes above (\<open>Inr\<close>).
\<close>

definition match_event ::
  "hedge_frame \<Rightarrow> lob_frame \<Rightarrow> int \<Rightarrow> rat \<Rightarrow> nat \<Rightarrow> py_error + outcome" where
  "match_event df_h df_o t_threshold tick_size irow =
     (let current_hedge_event = h_rows df_h ! irow in
      if has_EXECTYPE df_h \<and> \<not> exectype_is_fill (EXECTYPE current_hedge_event)
      then Inr NotAFillType
      else
        (case find_closest_lob_indexes df_h df_o irow t_threshold of
           Inl exn \<Rightarrow> Inl exn
         | Inr (lob_start_idx, lob_end_idx) \<Rightarrow>
             if lob_start_idx = -1 \<or> lob_start_idx \<ge> lob_end_idx then Inr NoWindow
             else
               (let lob_window_df = iloc_window df_o (nat lob_start_idx) (nat lob_end_idx) in
                case side_columns (SIDE current_hedge_event) of
                  None \<Rightarrow> Inr InvalidSide
                | Some (lob_price_suffix, lob_size_suffix, matched_level_sign) \<Rightarrow>
                    (case ord_size_this_fill df_h irow of
                       None \<Rightarrow> Inr BadFillSize
                     | Some ord_size \<Rightarrow>
                         if ord_size \<le> 0 then Inr BadFillSize
                         else
                           (case EXEC_PRICE current_hedge_event of
                              None \<Rightarrow> Inr MissingPrice
                            | Some exec_price \<Rightarrow>
                                (case price_search (lob_columns df_o) lob_window_df
                                        lob_price_suffix lob_size_suffix
                                        exec_price ord_size tick_size of
                                   None \<Rightarrow> Inr Unmatched
                                 | Some (kind, lob_level_num, lob_original_idx, row) \<Rightarrow>
                                     Inr (Matched
                                       (match_details_dict df_h current_hedge_event
                                          lob_price_suffix matched_level_sign exec_price
                                          ord_size kind lob_level_num
                                          lob_original_idx row))))))))"

subsection \<open>The main loop and the report\<close>

record loop_state =
  matched_data_list :: "match_record list"
  num_input_hedge_fill_events :: nat
  num_exact_price_matches :: nat
  num_fuzzy_price_matches :: nat

definition init_state :: loop_state where
  "init_state = \<lparr>matched_data_list = [], num_input_hedge_fill_events = 0,
                 num_exact_price_matches = 0, num_fuzzy_price_matches = 0\<rparr>"

text \<open>
  The effect of an outcome on the accumulators: an event that is not a fill leaves them
  as they are; every other event increments \<open>num_input_hedge_fill_events\<close>; a
  matched event also appends its record and increments the counter of its kind.
\<close>

definition record_outcome :: "outcome \<Rightarrow> loop_state \<Rightarrow> loop_state" where
  "record_outcome out st =
     (case out of
        NotAFillType \<Rightarrow> st
      | Matched m \<Rightarrow>
          (let st' = st\<lparr>num_input_hedge_fill_events := num_input_hedge_fill_events st + 1,
                        matched_data_list := matched_data_list st @ [m]\<rparr>
           in case match_type m of
                exact \<Rightarrow> st'\<lparr>num_exact_price_matches := num_exact_price_matches st' + 1\<rparr>
              | fuzzy \<Rightarrow> st'\<lparr>num_fuzzy_price_matches := num_fuzzy_price_matches st' + 1\<rparr>)
      | _ \<Rightarrow> st\<lparr>num_input_hedge_fill_events := num_input_hedge_fill_events st + 1\<rparr>)"

definition loop_body ::
  "hedge_frame \<Rightarrow> lob_frame \<Rightarrow> int \<Rightarrow> rat \<Rightarrow> nat \<Rightarrow> loop_state \<Rightarrow> py_error + loop_state" where
  "loop_body df_h df_o t_threshold tick_size irow st =
     (case match_event df_h df_o t_threshold tick_size irow of
        Inl exn \<Rightarrow> Inl exn
      | Inr out \<Rightarrow> Inr (record_outcome out st))"

text \<open>
  \<open>for irow in range(len(df_h_cleaned_sorted))\<close>: the iterations in order, ended by
  the first exception.
\<close>

definition run_loop ::
  "hedge_frame \<Rightarrow> lob_frame \<Rightarrow> int \<Rightarrow> rat \<Rightarrow> py_error + loop_state" where
  "run_loop df_h df_o t_threshold tick_size =
     fold (\<lambda>irow acc. case acc of
                         Inl exn \<Rightarrow> Inl exn
                       | Inr st \<Rightarrow> loop_body df_h df_o t_threshold tick_size irow st)
          [0..<length (h_rows df_h)] (Inr init_state)"

definition no_result :: engine_result where
  "no_result = \<lparr>df_matched_result = [], printed_report = None\<rparr>"

definition match_hedges_to_lob ::
  "hedge_frame \<Rightarrow> lob_frame \<Rightarrow> int \<Rightarrow> rat \<Rightarrow> py_error + engine_result" where
  "match_hedges_to_lob df_h df_o t_threshold tick_size =
     (if h_rows df_h = [] then Inr no_result
      else if lob_empty df_o then Inr no_result
      else
        (case run_loop df_h df_o t_threshold tick_size of
           Inl exn \<Rightarrow> Inl exn
         | Inr st \<Rightarrow>
             if matched_data_list st = [] then Inr no_result
             else
               (let num_matched_fill_events = length (matched_data_list st) in
                Inr \<lparr>df_matched_result = matched_data_list st,
                     printed_report = Some
                       \<lparr>attempted = num_input_hedge_fill_events st,
                        total_matched = num_matched_fill_events,
                        exact_matches = num_exact_price_matches st,
                        fuzzy_matches = num_fuzzy_price_matches st,
                        perc_fills_matched =
                          (if num_input_hedge_fill_events st > 0
                           then Some (of_nat num_matched_fill_events
                                      / of_nat (num_input_hedge_fill_events st) * 100)
                           else None)\<rparr>\<rparr>)))"

section \<open>LOB preparation: \<open>filter_and_prepare_lob_data\<close>\<close>

text \<open>
  The raw frame has the timestamp in the column \<open>Date-Time\<close>; the step renames it to
  \<open>lob_time\<close>. Timestamps are already parsed and timezone-naive in the model, so
  \<open>pd.to_datetime\<close> and \<open>tz_localize(None)\<close> do nothing. Every snapshot has a
  valid timestamp; a missing one (\<open>NaT\<close>) is outside the model. An absent
  \<open>specific_ric\<close> is the empty string, which Python treats as false.
\<close>

text \<open>
  \<open>sort_values(by=['lob_time'])\<close>. The model sorts stably; pandas does not promise
  an order among rows of equal timestamp for its default sort, and nothing below depends
  on that order.
\<close>

definition sort_values :: "lob_row list \<Rightarrow> lob_row list" where
  "sort_values rows = sort_key lob_time rows"

text \<open>
  \<open>Series.is_monotonic_increasing\<close>: every element is greater than or equal to the
  one before it (equal neighbours are allowed).
\<close>

fun is_monotonic_increasing :: "int list \<Rightarrow> bool" where
  "is_monotonic_increasing [] = True"
| "is_monotonic_increasing [x] = True"
| "is_monotonic_increasing (x # y # zs) = (x \<le> y \<and> is_monotonic_increasing (y # zs))"

text \<open>\<open>drop_duplicates(subset=['lob_time'], keep='first')\<close>.\<close>

fun drop_duplicates_from :: "int list \<Rightarrow> lob_row list \<Rightarrow> lob_row list" where
  "drop_duplicates_from seen [] = []"
| "drop_duplicates_from seen (r # rs) =
     (if lob_time r \<in> set seen then drop_duplicates_from seen rs
      else r # drop_duplicates_from (lob_time r # seen) rs)"

definition drop_duplicates :: "lob_row list \<Rightarrow> lob_row list" where
  "drop_duplicates rows = drop_duplicates_from [] rows"

definition filter_and_prepare_lob_data :: "lob_frame \<Rightarrow> string \<Rightarrow> lob_frame" where
  "filter_and_prepare_lob_data df_o specific_ric =
     (if lob_empty df_o then df_o
      else if ''Date-Time'' \<notin> set (lob_columns df_o) then df_o
      else
        (let by_ric = (specific_ric \<noteq> [] \<and> ''Alias Underlying RIC'' \<in> set (lob_columns df_o));
             df_1 = (if by_ric
                     then df_o\<lparr>lob_rows := filter (\<lambda>r. alias_ric r = specific_ric) (lob_rows df_o)\<rparr>
                     else df_o)
         in if by_ric \<and> lob_empty df_1 then df_1
            else
              (let columns = map (\<lambda>c. if c = ''Date-Time'' then ''lob_time'' else c)
                                 (lob_columns df_1);
                   rows_sorted = sort_values (lob_rows df_1);
                   rows_out =
                     (if \<not> is_monotonic_increasing (map lob_time rows_sorted)
                      then
                        (let rows_dedup = drop_duplicates rows_sorted in
                         if \<not> is_monotonic_increasing (map lob_time rows_dedup)
                         then sort_values rows_dedup
                         else rows_dedup)
                      else rows_sorted)
               in \<lparr>lob_columns = columns, lob_rows = rows_out\<rparr>)))"

section \<open>Conditions named by the specification\<close>

text \<open>
  The exact-match condition for level \<open>level\<close> of the snapshot at position \<open>j\<close>:
  the level has its price and size columns, the price is present and within \<open>1e-9\<close>
  of the execution price, and the size is present and at least the fill size.
\<close>

definition exact_condition ::
  "lob_frame \<Rightarrow> string \<Rightarrow> string \<Rightarrow> rat \<Rightarrow> rat \<Rightarrow> nat \<Rightarrow> nat \<Rightarrow> bool" where
  "exact_condition df_o price_suffix size_suffix execution_price fill_size level j \<longleftrightarrow>
     level_col level price_suffix \<in> set (lob_columns df_o) \<and>
     level_col level size_suffix \<in> set (lob_columns df_o) \<and>
     (case cells (lob_rows df_o ! j) (level_col level price_suffix) of
        None \<Rightarrow> False
      | Some level_price \<Rightarrow> \<bar>level_price - execution_price\<bar> < 1 / 1000000000) \<and>
     (case cells (lob_rows df_o ! j) (level_col level size_suffix) of
        None \<Rightarrow> False
      | Some level_size \<Rightarrow> fill_size \<le> level_size)"

section \<open>Concrete scenarios\<close>

text \<open>
  A book with two ask levels. The fill events below happen at 10 s with a forward
  threshold of 2 s, so the window is from 9 s to 12 s: the first snapshot is one
  nanosecond before it, the second exactly at its start, the fourth exactly at its end
  and the fifth one nanosecond after it.
\<close>

definition book_cells ::
  "rat option \<Rightarrow> rat option \<Rightarrow> rat option \<Rightarrow> rat option \<Rightarrow> string \<Rightarrow> rat option" where
  "book_cells l1_price l1_size l2_price l2_size c =
     (if c = ''L1-AskPrice'' then l1_price
      else if c = ''L1-AskSize'' then l1_size
      else if c = ''L2-AskPrice'' then l2_price
      else if c = ''L2-AskSize'' then l2_size
      else None)"

definition ex_lob :: lob_frame where
  "ex_lob =
     \<lparr>lob_columns = [''lob_time'', ''Alias Underlying RIC'', ''L1-AskPrice'', ''L1-AskSize'',
                     ''L2-AskPrice'', ''L2-AskSize''],
      lob_rows =
        [\<lparr>lob_time = 8999999999, alias_ric = ''FFIH4'',
          cells = book_cells (Some (201 / 2)) (Some 50) None None\<rparr>,
         \<lparr>lob_time = 9000000000, alias_ric = ''FFIH4'',
          cells = book_cells (Some 100) (Some 3) (Some (201 / 2)) None\<rparr>,
         \<lparr>lob_time = 10200000000, alias_ric = ''FFIH4'',
          cells = book_cells (Some (201 / 2)) (Some 10) (Some 101) (Some 4)\<rparr>,
         \<lparr>lob_time = 12000000000, alias_ric = ''FFIH4'',
          cells = book_cells (Some (201 / 2)) (Some 2) (Some 101) (Some 4)\<rparr>,
         \<lparr>lob_time = 12000000001, alias_ric = ''FFIH4'',
          cells = book_cells (Some (201 / 2)) (Some 50) None None\<rparr>]\<rparr>"

text \<open>
  Six events: a buy of 5 at 100.50 (order A); the next fill of order A, cumulative
  quantity 12, at 100.80; an event with side 3; an event of type 0 (not a fill); an
  event without a timestamp; and a buy of 5 at 100.50 (order E).
\<close>

definition ex_hedge :: hedge_frame where
  "ex_hedge =
     \<lparr>has_EXECTYPE = True, has_CUMQTY = True,
      h_rows =
        [\<lparr>CLORDID = ''A'', SIDE = Some 1, EXECTYPE = Some 1, CUMQTY = Some 5,
          EXEC_PRICE = Some (201 / 2), hedge_time = Some 10000000000\<rparr>,
         \<lparr>CLORDID = ''A'', SIDE = Some 1, EXECTYPE = Some 2, CUMQTY = Some 12,
          EXEC_PRICE = Some (504 / 5), hedge_time = Some 10000000000\<rparr>,
         \<lparr>CLORDID = ''B'', SIDE = Some 3, EXECTYPE = Some 1, CUMQTY = Some 4,
          EXEC_PRICE = Some (201 / 2), hedge_time = Some 10000000000\<rparr>,
         \<lparr>CLORDID = ''C'', SIDE = Some 1, EXECTYPE = Some 0, CUMQTY = Some 4,
          EXEC_PRICE = Some (201 / 2), hedge_time = Some 10000000000\<rparr>,
         \<lparr>CLORDID = ''D'', SIDE = Some 1, EXECTYPE = Some 1, CUMQTY = Some 4,
          EXEC_PRICE = Some (201 / 2), hedge_time = None\<rparr>,
         \<lparr>CLORDID = ''E'', SIDE = Some 1, EXECTYPE = Some 1, CUMQTY = Some 5,
          EXEC_PRICE = Some (201 / 2), hedge_time = Some 10000000000\<rparr>]\<rparr>"

text \<open>The forward threshold of 2 s and the tick size 0.5 of the scenarios.\<close>

definition ex_threshold :: int where
  "ex_threshold = 2000000000"

definition ex_tick :: rat where
  "ex_tick = 1 / 2"

text \<open>A frame whose only event is not a fill (type 0).\<close>

definition ex_hedge_no_fill :: hedge_frame where
  "ex_hedge_no_fill =
     \<lparr>has_EXECTYPE = True, has_CUMQTY = True,
      h_rows =
        [\<lparr>CLORDID = ''C'', SIDE = Some 1, EXECTYPE = Some 0, CUMQTY = Some 4,
          EXEC_PRICE = Some (201 / 2), hedge_time = Some 10000000000\<rparr>]\<rparr>"

text \<open>
  Two fills of different orders: the first has no cumulative quantity (NaN), the second
  a negative one.
\<close>

definition ex_hedge_bad_qty :: hedge_frame where
  "ex_hedge_bad_qty =
     \<lparr>has_EXECTYPE = True, has_CUMQTY = True,
      h_rows =
        [\<lparr>CLORDID = ''M'', SIDE = Some 1, EXECTYPE = Some 1, CUMQTY = None,
          EXEC_PRICE = Some (201 / 2), hedge_time = Some 10000000000\<rparr>,
         \<lparr>CLORDID = ''N'', SIDE = Some 1, EXECTYPE = Some 1, CUMQTY = Some (- 3),
          EXEC_PRICE = Some (201 / 2), hedge_time = Some 10000000000\<rparr>]\<rparr>"

text \<open>
  A raw book of three snapshots, out of order, two of which carry the same timestamp
  (with different sizes at level 1).
\<close>

definition ex_raw_lob :: lob_frame where
  "ex_raw_lob =
     \<lparr>lob_columns = [''Date-Time'', ''Alias Underlying RIC'', ''L1-AskPrice'', ''L1-AskSize''],
      lob_rows =
        [\<lparr>lob_time = 10200000000, alias_ric = ''FFIH4'',
          cells = book_cells (Some (201 / 2)) (Some 10) None None\<rparr>,
         \<lparr>lob_time = 9000000000, alias_ric = ''FFIH4'',
          cells = book_cells (Some 100) (Some 3) None None\<rparr>,
         \<lparr>lob_time = 10200000000, alias_ric = ''FFIH4'',
          cells = book_cells (Some (201 / 2)) (Some 2) None None\<rparr>]\<rparr>"

text \<open>The result of the run of the engine on the scenario (the run raises nothing).\<close>

definition ex_result :: engine_result where
  "ex_result = projr (match_hedges_to_lob ex_hedge ex_lob ex_threshold ex_tick)"

text \<open>
  A frame without the \<open>EXECTYPE\<close> column: its only event, which has no type, is the
  buy of 5 at 100.50.
\<close>

definition ex_hedge_no_type :: hedge_frame where
  "ex_hedge_no_type =
     \<lparr>has_EXECTYPE = False, has_CUMQTY = True,
      h_rows =
        [\<lparr>CLORDID = ''A'', SIDE = Some 1, EXECTYPE = None, CUMQTY = Some 5,
          EXEC_PRICE = Some (201 / 2), hedge_time = Some 10000000000\<rparr>]\<rparr>"

text \<open>
  Two fills: the first is the buy of 5 at 100.50, the second has the least timestamp
  that \<open>pd.Timestamp\<close> can hold, from which one second cannot be subtracted.
\<close>

definition ex_hedge_out_of_range :: hedge_frame where
  "ex_hedge_out_of_range =
     \<lparr>has_EXECTYPE = True, has_CUMQTY = True,
      h_rows =
        [\<lparr>CLORDID = ''A'', SIDE = Some 1, EXECTYPE = Some 1, CUMQTY = Some 5,
          EXEC_PRICE = Some (201 / 2), hedge_time = Some 10000000000\<rparr>,
         \<lparr>CLORDID = ''Z'', SIDE = Some 1, EXECTYPE = Some 1, CUMQTY = Some 5,
          EXEC_PRICE = Some (201 / 2), hedge_time = Some (- 9223372036854775807)\<rparr>]\<rparr>"

section \<open>Properties of the window locator\<close>




text \<open>The search never leaves the array, sorted or not.\<close>

lemma binsearch_bounds:
  "lo \<le> hi \<Longrightarrow> lo \<le> binsearch sd arr key lo hi \<and> binsearch sd arr key lo hi \<le> hi"
proof (induction sd arr key lo hi rule: binsearch.induct)
  case (1 sd arr key lo hi)
  show ?case
  proof (cases "lo < hi")
    case False
    with "1.prems" have "lo = hi" by simp
    then show ?thesis by (simp add: binsearch.simps [of sd arr key hi hi])
  next
    case True
    let ?mid = "lo + (hi - lo) div 2"
    have mid: "lo \<le> ?mid" "?mid < hi" using True by auto
    show ?thesis
    proof (cases "side_cmp sd (arr ! ?mid) key")
      case c: True
      have eq: "binsearch sd arr key lo hi = binsearch sd arr key (?mid + 1) hi"
        using True c by (subst binsearch.simps) (simp add: Let_def)
      have le: "?mid + 1 \<le> hi" using mid by simp
      from "1.IH"(1) [OF True refl c le] eq mid show ?thesis by auto
    next
      case c: False
      have eq: "binsearch sd arr key lo hi = binsearch sd arr key lo ?mid"
        using True c by (subst binsearch.simps) (simp add: Let_def)
      from "1.IH"(2) [OF True refl c mid(1)] eq mid show ?thesis by auto
    qed
  qed
qed

lemma searchsorted_le_length: "searchsorted arr key sd \<le> length arr"
  unfolding searchsorted_def using binsearch_bounds [of 0 "length arr" sd arr key] by simp






section \<open>Properties of the level matcher\<close>

subsection \<open>The candidate window\<close>

lemma length_iloc_window:
  "length (iloc_window df s e) = min e (length (lob_rows df)) - s"
  by (simp add: iloc_window_def)

lemma nth_iloc_window:
  assumes "j < length (iloc_window df s e)"
  shows "iloc_window df s e ! j = (s + j, lob_rows df ! (s + j))"
proof -
  let ?z = "zip [0..<length (lob_rows df)] (lob_rows df)"
  from assms have b: "s + j < e" "s + j < length (lob_rows df)"
    by (simp_all add: length_iloc_window)
  then have "s \<le> length (take e ?z)" by simp
  then have "drop s (take e ?z) ! j = take e ?z ! (s + j)" by (rule nth_drop)
  also have "\<dots> = ?z ! (s + j)" using b by simp
  also have "\<dots> = (s + j, lob_rows df ! (s + j))" using b by simp
  finally show ?thesis by (simp add: iloc_window_def)
qed

lemma find_Some_set: "find P xs = Some x \<Longrightarrow> x \<in> set xs \<and> P x"
  by (auto simp: find_Some_iff)

lemma set_iloc_window:
  "(i, r) \<in> set (iloc_window df s e) \<longleftrightarrow>
   s \<le> i \<and> i < e \<and> i < length (lob_rows df) \<and> r = lob_rows df ! i"
proof
  assume "(i, r) \<in> set (iloc_window df s e)"
  then obtain j where j: "j < length (iloc_window df s e)" "iloc_window df s e ! j = (i, r)"
    by (auto simp: in_set_conv_nth)
  from j(1) have "s + j < e" "s + j < length (lob_rows df)"
    by (simp_all add: length_iloc_window)
  with j nth_iloc_window [OF j(1)]
  show "s \<le> i \<and> i < e \<and> i < length (lob_rows df) \<and> r = lob_rows df ! i" by auto
next
  assume a: "s \<le> i \<and> i < e \<and> i < length (lob_rows df) \<and> r = lob_rows df ! i"
  then have l: "i - s < length (iloc_window df s e)" by (auto simp: length_iloc_window)
  from nth_iloc_window [OF l] a have "iloc_window df s e ! (i - s) = (i, r)" by simp
  with l show "(i, r) \<in> set (iloc_window df s e)" by (metis nth_mem)
qed

lemma find_iloc_window_Some:
  assumes "find P (iloc_window df s e) = Some (i, r)"
  shows "s \<le> i \<and> i < e \<and> i < length (lob_rows df) \<and> r = lob_rows df ! i \<and> P (i, r) \<and>
         (\<forall>j. s \<le> j \<and> j < i \<longrightarrow> \<not> P (j, lob_rows df ! j))"
proof -
  from assms obtain k where k: "k < length (iloc_window df s e)" "P (iloc_window df s e ! k)"
    "(i, r) = iloc_window df s e ! k" "\<forall>j<k. \<not> P (iloc_window df s e ! j)"
    by (auto simp: find_Some_iff)
  from k(1,3) have ir: "i = s + k" "r = lob_rows df ! (s + k)"
    by (simp_all add: nth_iloc_window)
  from k(1) have bound: "s + k < e" "s + k < length (lob_rows df)"
    by (simp_all add: length_iloc_window)
  have "\<not> P (j, lob_rows df ! j)" if "s \<le> j" "j < i" for j
  proof -
    from that ir have "j - s < k" by simp
    with k(4) have "\<not> P (iloc_window df s e ! (j - s))" by simp
    moreover have "j - s < length (iloc_window df s e)" using \<open>j - s < k\<close> k(1) by simp
    ultimately show ?thesis using that by (simp add: nth_iloc_window)
  qed
  with k ir bound show ?thesis by auto
qed

lemma scan_levels_None_iff:
  "scan_levels acc cols ps ss w lvls = None \<longleftrightarrow>
   (\<forall>m\<in>set lvls. \<not> (level_col m ps \<in> set cols \<and> level_col m ss \<in> set cols \<and>
                     (\<exists>x\<in>set w. acc (level_col m ps) (level_col m ss) (snd x))))"
  by (induction lvls)
     (auto simp: Let_def find_None_iff case_prod_unfold split: option.splits dest: find_Some_set)

lemma scan_levels_upt_Some:
  "scan_levels acc cols ps ss w [a..<b] = Some (n, idx, row) \<Longrightarrow>
   a \<le> n \<and> n < b \<and> level_col n ps \<in> set cols \<and> level_col n ss \<in> set cols \<and>
   find (\<lambda>(i, r). acc (level_col n ps) (level_col n ss) r) w = Some (idx, row) \<and>
   (\<forall>m. a \<le> m \<and> m < n \<longrightarrow>
        \<not> (level_col m ps \<in> set cols \<and> level_col m ss \<in> set cols \<and>
           (\<exists>x\<in>set w. acc (level_col m ps) (level_col m ss) (snd x))))"
proof (induction "b - a" arbitrary: a)
  case 0
  then show ?case by simp
next
  case (Suc k)
  then have ab: "a < b" and k: "k = b - Suc a" by auto
  have upt: "[a..<b] = a # [Suc a..<b]" using ab by (simp add: upt_conv_Cons)
  let ?present = "level_col a ps \<in> set cols \<and> level_col a ss \<in> set cols"
  let ?f = "find (\<lambda>(i, r). acc (level_col a ps) (level_col a ss) r) w"
  show ?case
  proof (cases "?present \<and> ?f \<noteq> None")
    case True
    then obtain i r where f: "?f = Some (i, r)" by (cases ?f) auto
    with True Suc.prems upt have "n = a" "idx = i" "row = r"
      by (simp_all add: Let_def)
    with True f ab show ?thesis by auto
  next
    case False
    then have skip: "scan_levels acc cols ps ss w [a..<b] = scan_levels acc cols ps ss w [Suc a..<b]"
      unfolding upt by (cases ?f) (auto simp: Let_def)
    from False have no: "\<not> (?present \<and> (\<exists>x\<in>set w. acc (level_col a ps) (level_col a ss) (snd x)))"
      by (auto simp: find_None_iff)
    from Suc.hyps(1) [OF k] Suc.prems skip
    have IH: "Suc a \<le> n \<and> n < b \<and> level_col n ps \<in> set cols \<and> level_col n ss \<in> set cols \<and>
      find (\<lambda>(i, r). acc (level_col n ps) (level_col n ss) r) w = Some (idx, row) \<and>
      (\<forall>m. Suc a \<le> m \<and> m < n \<longrightarrow>
        \<not> (level_col m ps \<in> set cols \<and> level_col m ss \<in> set cols \<and>
           (\<exists>x\<in>set w. acc (level_col m ps) (level_col m ss) (snd x))))"
      by simp
    have "\<not> (level_col m ps \<in> set cols \<and> level_col m ss \<in> set cols \<and>
           (\<exists>x\<in>set w. acc (level_col m ps) (level_col m ss) (snd x)))"
      if "a \<le> m \<and> m < n" for m
    proof (cases "m = a")
      case True with no show ?thesis by simp
    next
      case False with that IH show ?thesis by (metis Suc_leI le_neq_implies_less)
    qed
    with IH show ?thesis by auto
  qed
qed

subsection \<open>Decomposition of one iteration\<close>

lemma exectype_is_fill_iff: "exectype_is_fill v \<longleftrightarrow> v = Some 1 \<or> v = Some 2"
  by (cases v) (auto simp: exectype_is_fill_def num_eq_def)

lemma side_columns_Some:
  "side_columns sd = Some (ps, ss, sg) \<longleftrightarrow>
   (sd = Some 1 \<and> ps = ''-AskPrice'' \<and> ss = ''-AskSize'' \<and> sg = 1) \<or>
   (sd = Some 2 \<and> ps = ''-BidPrice'' \<and> ss = ''-BidSize'' \<and> sg = -1)"
  by (cases sd) (auto simp: side_columns_def num_eq_def)

lemma find_closest_range:
  "find_closest_lob_indexes df_h df_o irow T = Inr (s, e) \<Longrightarrow>
   (s = -1 \<and> e = -1) \<or>
   (0 \<le> s \<and> 0 \<le> e \<and> s \<le> int (length (lob_rows df_o)) \<and> e \<le> int (length (lob_rows df_o)))"
  using searchsorted_le_length [of "map lob_time (lob_rows df_o)"]
  by (auto simp: find_closest_lob_indexes_def Let_def split: if_splits option.splits)

lemma match_event_Matched:
  assumes "match_event df_h df_o T tick irow = Inr (Matched m)"
  shows "\<exists>s e ps ss sg ord ex kind lvl idx row.
     (has_EXECTYPE df_h \<longrightarrow> exectype_is_fill (EXECTYPE (h_rows df_h ! irow))) \<and>
     find_closest_lob_indexes df_h df_o irow T = Inr (s, e) \<and> s \<noteq> -1 \<and> s < e \<and>
     side_columns (SIDE (h_rows df_h ! irow)) = Some (ps, ss, sg) \<and>
     ord_size_this_fill df_h irow = Some ord \<and> 0 < ord \<and>
     EXEC_PRICE (h_rows df_h ! irow) = Some ex \<and>
     price_search (lob_columns df_o) (iloc_window df_o (nat s) (nat e)) ps ss ex ord tick
       = Some (kind, lvl, idx, row) \<and>
     m = match_details_dict df_h (h_rows df_h ! irow) ps sg ex ord kind lvl idx row"
  using assms unfolding match_event_def Let_def
  by (auto split: if_splits option.splits prod.splits sum.splits)

lemma match_event_prefiltered:
  assumes "has_EXECTYPE df_h \<longrightarrow> exectype_is_fill (EXECTYPE (h_rows df_h ! irow))"
    and "find_closest_lob_indexes df_h df_o irow T = Inr (s, e)" and "s \<noteq> -1" and "s < e"
    and "side_columns (SIDE (h_rows df_h ! irow)) = Some (ps, ss, sg)"
    and "ord_size_this_fill df_h irow = Some ord" and "0 < ord"
    and "EXEC_PRICE (h_rows df_h ! irow) = Some ex"
  shows "match_event df_h df_o T tick irow =
     (case price_search (lob_columns df_o) (iloc_window df_o (nat s) (nat e)) ps ss ex ord tick of
        None \<Rightarrow> Inr Unmatched
      | Some (kind, lvl, idx, row) \<Rightarrow>
          Inr (Matched
                 (match_details_dict df_h (h_rows df_h ! irow) ps sg ex ord kind lvl idx row)))"
  using assms unfolding match_event_def Let_def by auto

lemma price_search_exact:
  "price_search cols w ps ss ex ord tick = Some (exact, lvl, idx, row) \<longleftrightarrow>
   scan_levels (exact_accept ex ord) cols ps ss w [1..<11] = Some (lvl, idx, row)"
  by (auto simp: price_search_def split: option.splits)

lemma price_search_fuzzy:
  "price_search cols w ps ss ex ord tick = Some (fuzzy, lvl, idx, row) \<longleftrightarrow>
   scan_levels (exact_accept ex ord) cols ps ss w [1..<11] = None \<and>
   scan_levels (fuzzy_accept tick ex ord) cols ps ss w [1..<11] = Some (lvl, idx, row)"
  by (auto simp: price_search_def split: option.splits)

lemma match_type_dict [simp]:
  "match_type (match_details_dict df_h ev ps sg ex ord kind lvl idx row) = kind"
  by (simp add: match_details_dict_def)

subsection \<open>The exact pass\<close>

lemma exact_condition_iff:
  "exact_condition df_o ps ss ex ord lvl j \<longleftrightarrow>
   level_col lvl ps \<in> set (lob_columns df_o) \<and> level_col lvl ss \<in> set (lob_columns df_o) \<and>
   exact_accept ex ord (level_col lvl ps) (level_col lvl ss) (lob_rows df_o ! j)"
  by (auto simp: exact_condition_def exact_accept_def split: option.splits)

lemma exact_scan_None:
  assumes "scan_levels (exact_accept ex ord) (lob_columns df_o) ps ss
             (iloc_window df_o s e) [1..<11] = None"
    and "1 \<le> lvl" "lvl \<le> 10" "s \<le> j" "j < e" "j < length (lob_rows df_o)"
  shows "\<not> exact_condition df_o ps ss ex ord lvl j"
proof
  assume c: "exact_condition df_o ps ss ex ord lvl j"
  have mem: "(j, lob_rows df_o ! j) \<in> set (iloc_window df_o s e)"
    using assms(4-6) by (simp add: set_iloc_window)
  have "lvl \<in> set [1..<11]" using assms(2,3) by simp
  with assms(1) have "\<not> (level_col lvl ps \<in> set (lob_columns df_o) \<and>
       level_col lvl ss \<in> set (lob_columns df_o) \<and>
       (\<exists>x\<in>set (iloc_window df_o s e).
           exact_accept ex ord (level_col lvl ps) (level_col lvl ss) (snd x)))"
    unfolding scan_levels_None_iff by blast
  with c mem show False unfolding exact_condition_iff by force
qed

lemma exact_scan_Some:
  assumes "scan_levels (exact_accept ex ord) (lob_columns df_o) ps ss
             (iloc_window df_o s e) [1..<11] = Some (lvl, idx, row)"
  shows "1 \<le> lvl \<and> lvl \<le> 10 \<and> s \<le> idx \<and> idx < e \<and> idx < length (lob_rows df_o) \<and>
         row = lob_rows df_o ! idx \<and> exact_condition df_o ps ss ex ord lvl idx \<and>
         (\<forall>lvl' j'. 1 \<le> lvl' \<and> lvl' < lvl \<and> s \<le> j' \<and> j' < e \<and> j' < length (lob_rows df_o)
            \<longrightarrow> \<not> exact_condition df_o ps ss ex ord lvl' j') \<and>
         (\<forall>j'. s \<le> j' \<and> j' < idx \<longrightarrow> \<not> exact_condition df_o ps ss ex ord lvl j')"
proof -
  let ?w = "iloc_window df_o s e"
  let ?cols = "lob_columns df_o"
  from scan_levels_upt_Some [OF assms]
  have lv: "1 \<le> lvl" "lvl < 11"
    and pres: "level_col lvl ps \<in> set ?cols" "level_col lvl ss \<in> set ?cols"
    and f: "find (\<lambda>(i, r). exact_accept ex ord (level_col lvl ps) (level_col lvl ss) r) ?w
            = Some (idx, row)"
    and lower: "\<forall>m. 1 \<le> m \<and> m < lvl \<longrightarrow>
        \<not> (level_col m ps \<in> set ?cols \<and> level_col m ss \<in> set ?cols \<and>
           (\<exists>x\<in>set ?w. exact_accept ex ord (level_col m ps) (level_col m ss) (snd x)))"
    by auto
  from find_iloc_window_Some [OF f]
  have ix: "s \<le> idx" "idx < e" "idx < length (lob_rows df_o)" "row = lob_rows df_o ! idx"
    and acc: "exact_accept ex ord (level_col lvl ps) (level_col lvl ss) row"
    and earlier: "\<forall>j. s \<le> j \<and> j < idx \<longrightarrow>
        \<not> exact_accept ex ord (level_col lvl ps) (level_col lvl ss) (lob_rows df_o ! j)"
    by auto
  have c: "exact_condition df_o ps ss ex ord lvl idx"
    using pres acc ix(4) by (simp add: exact_condition_iff)
  have l: "\<not> exact_condition df_o ps ss ex ord lvl' j'"
    if "1 \<le> lvl' \<and> lvl' < lvl \<and> s \<le> j' \<and> j' < e \<and> j' < length (lob_rows df_o)" for lvl' j'
  proof
    assume c': "exact_condition df_o ps ss ex ord lvl' j'"
    from that have "(j', lob_rows df_o ! j') \<in> set ?w" by (simp add: set_iloc_window)
    with c' have "level_col lvl' ps \<in> set ?cols \<and> level_col lvl' ss \<in> set ?cols \<and>
           (\<exists>x\<in>set ?w. exact_accept ex ord (level_col lvl' ps) (level_col lvl' ss) (snd x))"
      unfolding exact_condition_iff by force
    with lower that show False by blast
  qed
  have r: "\<not> exact_condition df_o ps ss ex ord lvl j'" if "s \<le> j' \<and> j' < idx" for j'
    using earlier that by (simp add: exact_condition_iff)
  from lv ix c l r show ?thesis by auto
qed

text \<open>
  Claim C1. Take a fill event that passes the pre-filters (fill type, valid side,
  positive and defined fill size, defined execution price) and whose window
  \<open>[s, e)\<close> is not empty, and suppose some level between 1 and 10 and some row of the
  window satisfy the exact-match condition. Then the event is matched with kind
  \<open>exact\<close>, and the record carries a level \<open>lvl\<close> and a row \<open>j\<close> of the window that
  satisfy the condition such that no lower level satisfies it at any row of the window,
  and no earlier row of the window satisfies it at level \<open>lvl\<close>: the lowest qualifying
  level and, within it, the earliest qualifying row.
\<close>

theorem C1_exact_pass_order:
  assumes "has_EXECTYPE df_h \<longrightarrow>
             EXECTYPE (h_rows df_h ! irow) = Some 1 \<or> EXECTYPE (h_rows df_h ! irow) = Some 2"
    and "find_closest_lob_indexes df_h df_o irow T = Inr (s, e)" and "s \<noteq> -1" and "s < e"
    and "side_columns (SIDE (h_rows df_h ! irow)) = Some (ps, ss, sg)"
    and "ord_size_this_fill df_h irow = Some fill_size" and "0 < fill_size"
    and "EXEC_PRICE (h_rows df_h ! irow) = Some exec_price"
    and "1 \<le> lvl0" and "lvl0 \<le> 10" and "s \<le> int j0" and "int j0 < e"
    and "exact_condition df_o ps ss exec_price fill_size lvl0 j0"
  shows "\<exists>m lvl j.
           match_event df_h df_o T tick irow = Inr (Matched m) \<and> match_type m = exact \<and>
           matched_lob_level_interacted m = sg * int lvl \<and>
           original_lob_index m = j \<and> matched_row m = lob_rows df_o ! j \<and>
           1 \<le> lvl \<and> lvl \<le> lvl0 \<and> s \<le> int j \<and> int j < e \<and> j < length (lob_rows df_o) \<and>
           exact_condition df_o ps ss exec_price fill_size lvl j \<and>
           (\<forall>lvl' j'. 1 \<le> lvl' \<and> lvl' < lvl \<and> s \<le> int j' \<and> int j' < e \<longrightarrow>
                \<not> exact_condition df_o ps ss exec_price fill_size lvl' j') \<and>
           (\<forall>j'. s \<le> int j' \<and> j' < j \<longrightarrow>
                \<not> exact_condition df_o ps ss exec_price fill_size lvl j')"
proof -
  let ?n = "length (lob_rows df_o)"
  let ?w = "iloc_window df_o (nat s) (nat e)"
  let ?scan = "scan_levels (exact_accept exec_price fill_size) (lob_columns df_o) ps ss ?w [1..<11]"
  from find_closest_range [OF assms(2)] assms(3)
  have rng: "0 \<le> s" "0 \<le> e" "e \<le> int ?n" by auto
  have j0: "nat s \<le> j0" "j0 < nat e" "j0 < ?n" using assms(11,12) rng by auto
  have "?scan \<noteq> None"
  proof
    assume "?scan = None"
    from exact_scan_None [OF this assms(9,10) j0] assms(13) show False by simp
  qed
  then obtain lvl idx row where sc: "?scan = Some (lvl, idx, row)" by (cases ?scan) auto
  note props = exact_scan_Some [OF sc]
  have ps: "price_search (lob_columns df_o) ?w ps ss exec_price fill_size tick
            = Some (exact, lvl, idx, row)"
    using sc by (simp add: price_search_exact)
  have fill: "has_EXECTYPE df_h \<longrightarrow> exectype_is_fill (EXECTYPE (h_rows df_h ! irow))"
    using assms(1) by (simp add: exectype_is_fill_iff)
  let ?m = "match_details_dict df_h (h_rows df_h ! irow) ps sg exec_price fill_size
              exact lvl idx row"
  have me: "match_event df_h df_o T tick irow = Inr (Matched ?m)"
    using match_event_prefiltered [OF fill assms(2-8), of tick] ps by simp
  have le: "lvl \<le> lvl0"
  proof (rule ccontr)
    assume "\<not> lvl \<le> lvl0"
    then have "1 \<le> lvl0 \<and> lvl0 < lvl \<and> nat s \<le> j0 \<and> j0 < nat e \<and> j0 < ?n"
      using assms(9) j0 by simp
    with props have "\<not> exact_condition df_o ps ss exec_price fill_size lvl0 j0" by blast
    with assms(13) show False by simp
  qed
  have lower: "\<not> exact_condition df_o ps ss exec_price fill_size lvl' j'"
    if "1 \<le> lvl' \<and> lvl' < lvl \<and> s \<le> int j' \<and> int j' < e" for lvl' j'
  proof -
    from that rng have "1 \<le> lvl' \<and> lvl' < lvl \<and> nat s \<le> j' \<and> j' < nat e \<and> j' < ?n" by auto
    with props show ?thesis by blast
  qed
  have earlier: "\<not> exact_condition df_o ps ss exec_price fill_size lvl j'"
    if "s \<le> int j' \<and> j' < idx" for j'
  proof -
    from that have "nat s \<le> j' \<and> j' < idx" by auto
    with props show ?thesis by blast
  qed
  have fields: "match_type ?m = exact" "matched_lob_level_interacted ?m = sg * int lvl"
    "original_lob_index ?m = idx" "matched_row ?m = lob_rows df_o ! idx"
    using props by (simp_all add: match_details_dict_def)
  have bounds: "1 \<le> lvl" "s \<le> int idx" "int idx < e" "idx < ?n"
    "exact_condition df_o ps ss exec_price fill_size lvl idx"
    using props rng by auto
  from me fields bounds le lower earlier show ?thesis by blast
qed

text \<open>
  The first event of the scenario: the window is \<open>[1, 4)\<close>, level 1 of the snapshot at
  position 2 satisfies the condition.
\<close>

theorem C1_exact_pass_order_witness:
  "has_EXECTYPE ex_hedge \<and> EXECTYPE (h_rows ex_hedge ! 0) = Some 1 \<and>
   find_closest_lob_indexes ex_hedge ex_lob 0 ex_threshold = Inr (1, 4) \<and>
   side_columns (SIDE (h_rows ex_hedge ! 0)) = Some (''-AskPrice'', ''-AskSize'', 1) \<and>
   ord_size_this_fill ex_hedge 0 = Some 5 \<and>
   EXEC_PRICE (h_rows ex_hedge ! 0) = Some (201 / 2) \<and>
   exact_condition ex_lob ''-AskPrice'' ''-AskSize'' (201 / 2) 5 1 2 \<and>
   (\<exists>m lvl j.
      match_event ex_hedge ex_lob ex_threshold ex_tick 0 = Inr (Matched m) \<and>
      match_type m = exact \<and>
      matched_lob_level_interacted m = 1 * int lvl \<and>
      original_lob_index m = j \<and> matched_row m = lob_rows ex_lob ! j \<and>
      1 \<le> lvl \<and> lvl \<le> 1 \<and> (1::int) \<le> int j \<and> int j < 4 \<and> j < length (lob_rows ex_lob) \<and>
      exact_condition ex_lob ''-AskPrice'' ''-AskSize'' (201 / 2) 5 lvl j \<and>
      (\<forall>lvl' j'. 1 \<le> lvl' \<and> lvl' < lvl \<and> 1 \<le> int j' \<and> int j' < 4 \<longrightarrow>
           \<not> exact_condition ex_lob ''-AskPrice'' ''-AskSize'' (201 / 2) 5 lvl' j') \<and>
      (\<forall>j'. 1 \<le> int j' \<and> j' < j \<longrightarrow>
           \<not> exact_condition ex_lob ''-AskPrice'' ''-AskSize'' (201 / 2) 5 lvl j'))"
proof -
  have h0: "has_EXECTYPE ex_hedge \<and> EXECTYPE (h_rows ex_hedge ! 0) = Some 1"
    by (simp add: ex_hedge_def)
  then have h1: "has_EXECTYPE ex_hedge \<longrightarrow>
      EXECTYPE (h_rows ex_hedge ! 0) = Some 1 \<or> EXECTYPE (h_rows ex_hedge ! 0) = Some 2"
    by simp
  have h2: "find_closest_lob_indexes ex_hedge ex_lob 0 ex_threshold = Inr (1, 4)"
    by code_simp
  have h3: "side_columns (SIDE (h_rows ex_hedge ! 0)) = Some (''-AskPrice'', ''-AskSize'', 1)"
    by code_simp
  have h4: "ord_size_this_fill ex_hedge 0 = Some 5"
    by code_simp
  have h5: "EXEC_PRICE (h_rows ex_hedge ! 0) = Some (201 / 2)"
    by (simp add: ex_hedge_def)
  have h6: "exact_condition ex_lob ''-AskPrice'' ''-AskSize'' (201 / 2) 5 1 2"
    by code_simp
  from C1_exact_pass_order [OF h1 h2 _ _ h3 h4 _ h5 _ _ _ _ h6, of ex_tick] h0 h2 h3 h4 h5 h6
  show ?thesis by simp
qed

section \<open>Properties of the main loop\<close>

subsection \<open>The accumulators\<close>

lemma record_outcome_records:
  "matched_data_list (record_outcome out st) =
   matched_data_list st @ (case out of Matched m \<Rightarrow> [m] | _ \<Rightarrow> [])"
  by (simp add: record_outcome_def Let_def split: outcome.splits match_kind.splits)

lemma fold_record_outcome_records:
  "matched_data_list (fold record_outcome outs st) =
   matched_data_list st @ concat (map (\<lambda>out. case out of Matched m \<Rightarrow> [m] | _ \<Rightarrow> []) outs)"
  by (induction outs arbitrary: st) (simp_all add: record_outcome_records)

lemma record_outcome_attempted:
  "num_input_hedge_fill_events (record_outcome out st) =
   num_input_hedge_fill_events st + (if out = NotAFillType then 0 else 1)"
  by (simp add: record_outcome_def Let_def split: outcome.splits match_kind.splits)

lemma fold_record_outcome_attempted:
  "num_input_hedge_fill_events (fold record_outcome outs st) =
   num_input_hedge_fill_events st + length (filter (\<lambda>out. out \<noteq> NotAFillType) outs)"
  by (induction outs arbitrary: st) (simp_all add: record_outcome_attempted)

lemma record_outcome_counts:
  "num_exact_price_matches st + num_fuzzy_price_matches st = length (matched_data_list st) \<Longrightarrow>
   length (matched_data_list st) \<le> num_input_hedge_fill_events st \<Longrightarrow>
   num_exact_price_matches (record_outcome out st) +
     num_fuzzy_price_matches (record_outcome out st) =
     length (matched_data_list (record_outcome out st)) \<and>
   length (matched_data_list (record_outcome out st))
     \<le> num_input_hedge_fill_events (record_outcome out st)"
  by (simp add: record_outcome_def Let_def split: outcome.splits match_kind.splits)

lemma fold_record_outcome_counts:
  "num_exact_price_matches st + num_fuzzy_price_matches st = length (matched_data_list st) \<Longrightarrow>
   length (matched_data_list st) \<le> num_input_hedge_fill_events st \<Longrightarrow>
   num_exact_price_matches (fold record_outcome outs st) +
     num_fuzzy_price_matches (fold record_outcome outs st) =
     length (matched_data_list (fold record_outcome outs st)) \<and>
   length (matched_data_list (fold record_outcome outs st))
     \<le> num_input_hedge_fill_events (fold record_outcome outs st)"
proof (induction outs arbitrary: st)
  case Nil
  then show ?case by simp
next
  case (Cons out outs)
  from record_outcome_counts [OF Cons.prems, of out]
  show ?case by (simp add: Cons.IH)
qed

lemma record_outcome_kinds:
  assumes "num_exact_price_matches st
             = length (filter (\<lambda>m. match_type m = exact) (matched_data_list st))"
    and "num_fuzzy_price_matches st
             = length (filter (\<lambda>m. match_type m = fuzzy) (matched_data_list st))"
  shows "num_exact_price_matches (record_outcome out st)
           = length (filter (\<lambda>m. match_type m = exact)
                       (matched_data_list (record_outcome out st))) \<and>
         num_fuzzy_price_matches (record_outcome out st)
           = length (filter (\<lambda>m. match_type m = fuzzy)
                       (matched_data_list (record_outcome out st)))"
  using assms by (simp add: record_outcome_def Let_def split: outcome.splits match_kind.splits)

lemma fold_record_outcome_kinds:
  "num_exact_price_matches st
     = length (filter (\<lambda>m. match_type m = exact) (matched_data_list st)) \<Longrightarrow>
   num_fuzzy_price_matches st
     = length (filter (\<lambda>m. match_type m = fuzzy) (matched_data_list st)) \<Longrightarrow>
   num_exact_price_matches (fold record_outcome outs st)
     = length (filter (\<lambda>m. match_type m = exact)
                 (matched_data_list (fold record_outcome outs st))) \<and>
   num_fuzzy_price_matches (fold record_outcome outs st)
     = length (filter (\<lambda>m. match_type m = fuzzy)
                 (matched_data_list (fold record_outcome outs st)))"
proof (induction outs arbitrary: st)
  case Nil
  then show ?case by simp
next
  case (Cons out outs)
  from record_outcome_kinds [OF Cons.prems, of out]
  show ?case by (simp add: Cons.IH)
qed

subsection \<open>The loop and its exceptions\<close>

text \<open>
  Once an iteration has raised, nothing more happens. The loop returns a state exactly
  when every iteration returns an outcome, and the state is then the one obtained by
  recording the outcomes in order; when the loop raises, some iteration raised that
  exception.
\<close>

lemma fold_loop_Inl:
  "fold (\<lambda>irow acc. case acc of Inl exn \<Rightarrow> Inl exn
                                | Inr st \<Rightarrow> loop_body df_h df_o T tick irow st)
        is (Inl exn) = Inl exn"
  by (induction "is") simp_all

lemma fold_loop_Inr:
  "fold (\<lambda>irow acc. case acc of Inl exn \<Rightarrow> Inl exn
                                | Inr st \<Rightarrow> loop_body df_h df_o T tick irow st)
        is (Inr st) = Inr st' \<longleftrightarrow>
   (\<exists>outs. map (match_event df_h df_o T tick) is = map Inr outs \<and>
           st' = fold record_outcome outs st)"
proof (induction "is" arbitrary: st)
  case Nil
  then show ?case by auto
next
  case (Cons i "is")
  show ?case
  proof (cases "match_event df_h df_o T tick i")
    case (Inl exn)
    then have "map (match_event df_h df_o T tick) (i # is) \<noteq> map Inr outs" for outs
      by (cases outs) auto
    with Inl show ?thesis by (simp add: loop_body_def fold_loop_Inl)
  next
    case (Inr out)
    have "(\<exists>outs. map (match_event df_h df_o T tick) (i # is) = map Inr outs \<and>
                  st' = fold record_outcome outs st) \<longleftrightarrow>
          (\<exists>outs'. map (match_event df_h df_o T tick) is = map Inr outs' \<and>
                   st' = fold record_outcome outs' (record_outcome out st))"
    proof
      assume "\<exists>outs. map (match_event df_h df_o T tick) (i # is) = map Inr outs \<and>
                  st' = fold record_outcome outs st"
      then obtain outs where o: "map (match_event df_h df_o T tick) (i # is) = map Inr outs"
        "st' = fold record_outcome outs st" by blast
      from o(1) Inr obtain outs' where "outs = out # outs'"
        "map (match_event df_h df_o T tick) is = map Inr outs'"
        by (cases outs) auto
      with o(2) show "\<exists>outs'. map (match_event df_h df_o T tick) is = map Inr outs' \<and>
                   st' = fold record_outcome outs' (record_outcome out st)"
        by auto
    next
      assume "\<exists>outs'. map (match_event df_h df_o T tick) is = map Inr outs' \<and>
                   st' = fold record_outcome outs' (record_outcome out st)"
      then obtain outs' where o: "map (match_event df_h df_o T tick) is = map Inr outs'"
        "st' = fold record_outcome outs' (record_outcome out st)" by blast
      with Inr have "map (match_event df_h df_o T tick) (i # is) = map Inr (out # outs') \<and>
                  st' = fold record_outcome (out # outs') st"
        by simp
      then show "\<exists>outs. map (match_event df_h df_o T tick) (i # is) = map Inr outs \<and>
                  st' = fold record_outcome outs st"
        by blast
    qed
    with Inr Cons.IH [of "record_outcome out st"] show ?thesis
      by (simp add: loop_body_def)
  qed
qed


lemma run_loop_Inr:
  "run_loop df_h df_o T tick = Inr st \<longleftrightarrow>
   (\<exists>outs. map (match_event df_h df_o T tick) [0..<length (h_rows df_h)] = map Inr outs \<and>
           st = fold record_outcome outs init_state)"
  unfolding run_loop_def by (rule fold_loop_Inr)


lemma outcomes_records:
  assumes "map (match_event df_h df_o T tick) is = map Inr outs"
  shows "concat (map (\<lambda>out. case out of Matched m \<Rightarrow> [m] | _ \<Rightarrow> []) outs) =
         concat (map (\<lambda>irow. case match_event df_h df_o T tick irow of
                                Inr (Matched m) \<Rightarrow> [m] | _ \<Rightarrow> []) is)"
proof -
  let ?g = "\<lambda>r :: py_error + outcome. case r of Inr (Matched m) \<Rightarrow> [m] | _ \<Rightarrow> []"
  have "map (\<lambda>irow. ?g (match_event df_h df_o T tick irow)) is
        = map ?g (map (match_event df_h df_o T tick) is)"
    by simp
  also have "\<dots> = map ?g (map Inr outs)" by (simp only: assms)
  also have "\<dots> = map (\<lambda>out. case out of Matched m \<Rightarrow> [m] | _ \<Rightarrow> []) outs"
    by simp
  finally show ?thesis by simp
qed

lemma run_loop_records:
  assumes "run_loop df_h df_o T tick = Inr st"
  shows "matched_data_list st =
         concat (map (\<lambda>irow. case match_event df_h df_o T tick irow of
                                Inr (Matched m) \<Rightarrow> [m] | _ \<Rightarrow> [])
                     [0..<length (h_rows df_h)])"
proof -
  from assms obtain outs where
    o: "map (match_event df_h df_o T tick) [0..<length (h_rows df_h)] = map Inr outs"
    and st: "st = fold record_outcome outs init_state"
    by (auto simp: run_loop_Inr)
  from st have "matched_data_list st =
      concat (map (\<lambda>out. case out of Matched m \<Rightarrow> [m] | _ \<Rightarrow> []) outs)"
    by (simp add: fold_record_outcome_records init_state_def)
  with outcomes_records [OF o] show ?thesis by simp
qed

lemma match_event_no_lob:
  "lob_empty df_o \<Longrightarrow>
   match_event df_h df_o T tick irow = Inr NotAFillType \<or>
   match_event df_h df_o T tick irow = Inr NoWindow \<or>
   (\<exists>exn. match_event df_h df_o T tick irow = Inl exn)"
  by (auto simp: match_event_def find_closest_lob_indexes_def Let_def split: option.splits)

text \<open>
  Whenever the engine returns, its records are, in order, the records of the events that
  match.
\<close>

lemma engine_records:
  assumes "match_hedges_to_lob df_h df_o T tick = Inr res"
  shows "df_matched_result res =
         concat (map (\<lambda>irow. case match_event df_h df_o T tick irow of
                                Inr (Matched m) \<Rightarrow> [m] | _ \<Rightarrow> [])
                     [0..<length (h_rows df_h)])"
proof (cases "h_rows df_h = [] \<or> lob_empty df_o")
  case True
  with assms have "res = no_result"
    by (cases "h_rows df_h = []") (simp_all add: match_hedges_to_lob_def)
  then have res: "df_matched_result res = []"
    by (simp add: no_result_def)
  show ?thesis
  proof (cases "h_rows df_h = []")
    case True
    with res show ?thesis by simp
  next
    case False
    with True have e: "lob_empty df_o" by simp
    have "(case match_event df_h df_o T tick irow of Inr (Matched m) \<Rightarrow> [m] | _ \<Rightarrow> []) = []"
      for irow
      using match_event_no_lob [OF e, of df_h T tick irow] by auto
    with res show ?thesis by simp
  qed
next
  case False
  with assms obtain st where st: "run_loop df_h df_o T tick = Inr st"
    and res: "df_matched_result res = matched_data_list st"
    by (auto simp: match_hedges_to_lob_def no_result_def Let_def split: sum.splits if_splits)
  from run_loop_records [OF st] res show ?thesis by simp
qed

lemma engine_record_origin:
  assumes "match_hedges_to_lob df_h df_o T tick = Inr res"
  shows "m \<in> set (df_matched_result res) \<longleftrightarrow>
         (\<exists>irow<length (h_rows df_h). match_event df_h df_o T tick irow = Inr (Matched m))"
proof -
  have "m \<in> set (case r of Inr (Matched m') \<Rightarrow> [m'] | _ \<Rightarrow> []) \<longleftrightarrow> r = Inr (Matched m)"
    for r :: "py_error + outcome"
    by (auto split: sum.splits outcome.splits)
  then show ?thesis unfolding engine_records [OF assms] by (simp add: Bex_def)
qed

lemma match_event_NotAFillType:
  "match_event df_h df_o T tick irow = Inr NotAFillType \<longleftrightarrow>
   has_EXECTYPE df_h \<and> \<not> exectype_is_fill (EXECTYPE (h_rows df_h ! irow))"
  by (auto simp: match_event_def Let_def split: option.splits prod.splits sum.splits)


lemma run_loop_counts:
  assumes "run_loop df_h df_o T tick = Inr st"
  shows "num_exact_price_matches st + num_fuzzy_price_matches st = length (matched_data_list st) \<and>
         length (matched_data_list st) \<le> num_input_hedge_fill_events st"
proof -
  from assms obtain outs where st: "st = fold record_outcome outs init_state"
    by (auto simp: run_loop_Inr)
  show ?thesis unfolding st by (rule fold_record_outcome_counts) (simp_all add: init_state_def)
qed

lemma run_loop_kinds:
  assumes "run_loop df_h df_o T tick = Inr st"
  shows "num_exact_price_matches st
           = length (filter (\<lambda>m. match_type m = exact) (matched_data_list st)) \<and>
         num_fuzzy_price_matches st
           = length (filter (\<lambda>m. match_type m = fuzzy) (matched_data_list st))"
proof -
  from assms obtain outs where st: "st = fold record_outcome outs init_state"
    by (auto simp: run_loop_Inr)
  show ?thesis unfolding st by (rule fold_record_outcome_kinds) (simp_all add: init_state_def)
qed

lemma run_loop_attempted:
  assumes "run_loop df_h df_o T tick = Inr st"
  shows "num_input_hedge_fill_events st =
         length (filter (\<lambda>ev. has_EXECTYPE df_h \<longrightarrow> EXECTYPE ev = Some 1 \<or> EXECTYPE ev = Some 2)
                   (h_rows df_h))"
proof -
  let ?P = "\<lambda>ev. has_EXECTYPE df_h \<longrightarrow> EXECTYPE ev = Some 1 \<or> EXECTYPE ev = Some 2"
  let ?n = "length (h_rows df_h)"
  from assms obtain outs where
    o: "map (match_event df_h df_o T tick) [0..<?n] = map Inr outs"
    and st: "st = fold record_outcome outs init_state"
    by (auto simp: run_loop_Inr)
  have "length (filter (\<lambda>out. out \<noteq> NotAFillType) outs)
        = length (filter (\<lambda>r. r \<noteq> Inr NotAFillType) (map Inr outs :: (py_error + outcome) list))"
    by (simp add: filter_map comp_def)
  also have "\<dots> = length (filter (\<lambda>r. r \<noteq> Inr NotAFillType)
                             (map (match_event df_h df_o T tick) [0..<?n]))"
    by (simp only: o)
  also have "\<dots> = length (filter (\<lambda>irow. ?P (h_rows df_h ! irow)) [0..<?n])"
    by (simp add: filter_map comp_def match_event_NotAFillType exectype_is_fill_iff)
  also have "\<dots> = length (filter ?P (map (\<lambda>irow. h_rows df_h ! irow) [0..<?n]))"
    by (simp add: filter_map comp_def)
  also have "\<dots> = length (filter ?P (h_rows df_h))"
    by (simp add: map_nth)
  finally have "length (filter (\<lambda>out. out \<noteq> NotAFillType) outs) = length (filter ?P (h_rows df_h))" .
  with st show ?thesis by (simp add: fold_record_outcome_attempted init_state_def)
qed

subsection \<open>Exact before fuzzy\<close>

lemma fuzzy_event_no_exact:
  assumes "match_event df_h df_o T tick irow = Inr (Matched m)" and "match_type m = fuzzy"
  shows "\<exists>s e ps ss sg.
           find_closest_lob_indexes df_h df_o irow T = Inr (s, e) \<and>
           side_columns (SIDE (h_rows df_h ! irow)) = Some (ps, ss, sg) \<and>
           EXEC_PRICE (h_rows df_h ! irow) = Some (matched_hedge_exec_price m) \<and>
           ord_size_this_fill df_h irow = Some (matched_hedge_this_fill_size m) \<and>
           (\<forall>lvl j. 1 \<le> lvl \<and> lvl \<le> 10 \<and> s \<le> int j \<and> int j < e \<longrightarrow>
              \<not> exact_condition df_o ps ss (matched_hedge_exec_price m)
                   (matched_hedge_this_fill_size m) lvl j)"
proof -
  from match_event_Matched [OF assms(1)]
  obtain s e ps ss sg ord ex kind lvl idx row where
    fc: "find_closest_lob_indexes df_h df_o irow T = Inr (s, e)" "s \<noteq> -1" "s < e"
    and sc: "side_columns (SIDE (h_rows df_h ! irow)) = Some (ps, ss, sg)"
    and ord: "ord_size_this_fill df_h irow = Some ord"
    and ex: "EXEC_PRICE (h_rows df_h ! irow) = Some ex"
    and ps: "price_search (lob_columns df_o) (iloc_window df_o (nat s) (nat e)) ps ss ex ord tick
             = Some (kind, lvl, idx, row)"
    and m: "m = match_details_dict df_h (h_rows df_h ! irow) ps sg ex ord kind lvl idx row"
    by blast
  from m assms(2) have kind: "kind = fuzzy" by simp
  from m have f: "matched_hedge_exec_price m = ex" "matched_hedge_this_fill_size m = ord"
    by (simp_all add: match_details_dict_def)
  from ps kind have none: "scan_levels (exact_accept ex ord) (lob_columns df_o) ps ss
             (iloc_window df_o (nat s) (nat e)) [1..<11] = None"
    by (simp add: price_search_fuzzy)
  from find_closest_range [OF fc(1)] fc(2)
  have rng: "0 \<le> s" "e \<le> int (length (lob_rows df_o))" by auto
  have "\<not> exact_condition df_o ps ss ex ord lvl' j"
    if "1 \<le> lvl' \<and> lvl' \<le> 10 \<and> s \<le> int j \<and> int j < e" for lvl' j
  proof -
    from that rng have "1 \<le> lvl'" "lvl' \<le> 10" "nat s \<le> j" "j < nat e" "j < length (lob_rows df_o)"
      by auto
    from exact_scan_None [OF none this] show ?thesis .
  qed
  with fc sc ord ex f show ?thesis by auto
qed

text \<open>
  Claim C2. Every record of kind \<open>fuzzy\<close> in the result belongs to a fill event in
  whose window no level from 1 to 10 and no row satisfy the exact-match condition (for
  the execution price and fill size of that event): the fuzzy pass runs only when the
  exact pass has found nothing.
\<close>

theorem C2_exact_first:
  assumes "match_hedges_to_lob df_h df_o T tick = Inr res"
    and "m \<in> set (df_matched_result res)"
    and "match_type m = fuzzy"
  shows "\<exists>irow s e ps ss sg.
           irow < length (h_rows df_h) \<and>
           match_event df_h df_o T tick irow = Inr (Matched m) \<and>
           find_closest_lob_indexes df_h df_o irow T = Inr (s, e) \<and>
           side_columns (SIDE (h_rows df_h ! irow)) = Some (ps, ss, sg) \<and>
           EXEC_PRICE (h_rows df_h ! irow) = Some (matched_hedge_exec_price m) \<and>
           ord_size_this_fill df_h irow = Some (matched_hedge_this_fill_size m) \<and>
           (\<forall>lvl j. 1 \<le> lvl \<and> lvl \<le> 10 \<and> s \<le> int j \<and> int j < e \<longrightarrow>
              \<not> exact_condition df_o ps ss (matched_hedge_exec_price m)
                   (matched_hedge_this_fill_size m) lvl j)"
proof -
  from assms(2) obtain irow where i: "irow < length (h_rows df_h)"
    "match_event df_h df_o T tick irow = Inr (Matched m)"
    by (auto simp: engine_record_origin [OF assms(1)])
  from fuzzy_event_no_exact [OF i(2) assms(3)] i show ?thesis by blast
qed

lemma ex_run: "match_hedges_to_lob ex_hedge ex_lob ex_threshold ex_tick = Inr ex_result"
proof -
  have "\<not> isl (match_hedges_to_lob ex_hedge ex_lob ex_threshold ex_tick)"
    by code_simp
  then show ?thesis by (simp add: ex_result_def)
qed

lemma ex_result_length: "length (df_matched_result ex_result) = 3"
  by code_simp

text \<open>
  The second record of the scenario is the fuzzy match of the second event (price
  100.80 against the level-1 price 100.50).
\<close>

theorem C2_exact_first_witness:
  "match_hedges_to_lob ex_hedge ex_lob ex_threshold ex_tick = Inr ex_result \<and>
   df_matched_result ex_result ! 1 \<in> set (df_matched_result ex_result) \<and>
   match_type (df_matched_result ex_result ! 1) = fuzzy \<and>
   (\<exists>irow s e ps ss sg.
      irow < length (h_rows ex_hedge) \<and>
      match_event ex_hedge ex_lob ex_threshold ex_tick irow
        = Inr (Matched (df_matched_result ex_result ! 1)) \<and>
      find_closest_lob_indexes ex_hedge ex_lob irow ex_threshold = Inr (s, e) \<and>
      side_columns (SIDE (h_rows ex_hedge ! irow)) = Some (ps, ss, sg) \<and>
      EXEC_PRICE (h_rows ex_hedge ! irow)
        = Some (matched_hedge_exec_price (df_matched_result ex_result ! 1)) \<and>
      ord_size_this_fill ex_hedge irow
        = Some (matched_hedge_this_fill_size (df_matched_result ex_result ! 1)) \<and>
      (\<forall>lvl j. 1 \<le> lvl \<and> lvl \<le> 10 \<and> s \<le> int j \<and> int j < e \<longrightarrow>
         \<not> exact_condition ex_lob ps ss
              (matched_hedge_exec_price (df_matched_result ex_result ! 1))
              (matched_hedge_this_fill_size (df_matched_result ex_result ! 1)) lvl j))"
proof -
  have h1: "df_matched_result ex_result ! 1 \<in> set (df_matched_result ex_result)"
    by (rule nth_mem) (simp add: ex_result_length)
  have h2: "match_type (df_matched_result ex_result ! 1) = fuzzy"
    by code_simp
  from C2_exact_first [OF ex_run h1 h2] ex_run h1 h2
  show ?thesis by blast
qed

subsection \<open>Size sufficiency\<close>

lemma exact_accept_cells:
  "exact_accept ex ord pc sc row \<Longrightarrow>
   \<exists>p sz. cells row pc = Some p \<and> cells row sc = Some sz \<and> ord \<le> sz \<and>
          \<bar>p - ex\<bar> < 1 / 1000000000"
  by (auto simp: exact_accept_def split: option.splits)

lemma fuzzy_accept_cells:
  "fuzzy_accept tick ex ord pc sc row \<Longrightarrow>
   \<exists>p sz. cells row pc = Some p \<and> cells row sc = Some sz \<and> ord \<le> sz \<and>
          \<bar>p - ex\<bar> \<le> tick + 1 / 1000000000"
  by (auto simp: fuzzy_accept_def split: option.splits)

lemma scan_levels_accepts:
  assumes "scan_levels acc cols ps ss w [1..<11] = Some (lvl, idx, row)"
  shows "1 \<le> lvl \<and> lvl \<le> 10 \<and> acc (level_col lvl ps) (level_col lvl ss) row"
proof -
  from scan_levels_upt_Some [OF assms]
  have lv: "1 \<le> lvl" "lvl < 11"
    and f: "find (\<lambda>(i, r). acc (level_col lvl ps) (level_col lvl ss) r) w = Some (idx, row)"
    by auto
  from find_Some_set [OF f] lv show ?thesis by auto
qed

lemma price_search_cells:
  assumes "price_search cols w ps ss ex ord tick = Some (kind, lvl, idx, row)"
  shows "1 \<le> lvl \<and> lvl \<le> 10 \<and>
         (\<exists>p sz. cells row (level_col lvl ps) = Some p \<and>
                 cells row (level_col lvl ss) = Some sz \<and> ord \<le> sz)"
proof (cases kind)
  case exact
  with assms have "scan_levels (exact_accept ex ord) cols ps ss w [1..<11] = Some (lvl, idx, row)"
    by (simp add: price_search_exact)
  from scan_levels_accepts [OF this] exact_accept_cells show ?thesis by blast
next
  case fuzzy
  with assms have "scan_levels (fuzzy_accept tick ex ord) cols ps ss w [1..<11]
                   = Some (lvl, idx, row)"
    by (simp add: price_search_fuzzy)
  from scan_levels_accepts [OF this] fuzzy_accept_cells show ?thesis by blast
qed

text \<open>
  Claim C4. Every record of the result, exact or fuzzy, refers to a level and a row
  whose price and size are both present, with the size at least the fill size of the
  record. A row whose price or size at the examined level is missing is rejected by both
  acceptance tests: a missing value is never read as a number.
\<close>

theorem C4_size_sufficiency:
  assumes "match_hedges_to_lob df_h df_o T tick = Inr res"
  shows "(\<forall>m\<in>set (df_matched_result res).
      \<exists>ps ss sg lvl level_price level_size.
        side_columns (matched_hedge_side m) = Some (ps, ss, sg) \<and>
        1 \<le> lvl \<and> lvl \<le> 10 \<and> matched_lob_level_interacted m = sg * int lvl \<and>
        cells (matched_row m) (level_col lvl ps) = Some level_price \<and>
        cells (matched_row m) (level_col lvl ss) = Some level_size \<and>
        matched_hedge_this_fill_size m \<le> level_size) \<and>
   (\<forall>row pc sc ex ord.
      cells row pc = None \<or> cells row sc = None \<longrightarrow>
      \<not> exact_accept ex ord pc sc row \<and> \<not> fuzzy_accept tick ex ord pc sc row)"
proof (intro conjI ballI allI impI)
  fix m
  assume "m \<in> set (df_matched_result res)"
  then obtain irow where "match_event df_h df_o T tick irow = Inr (Matched m)"
    by (auto simp: engine_record_origin [OF assms])
  from match_event_Matched [OF this]
  obtain s e ps ss sg ord ex kind lvl idx row where
    sc: "side_columns (SIDE (h_rows df_h ! irow)) = Some (ps, ss, sg)"
    and ps: "price_search (lob_columns df_o) (iloc_window df_o (nat s) (nat e)) ps ss ex ord tick
             = Some (kind, lvl, idx, row)"
    and m: "m = match_details_dict df_h (h_rows df_h ! irow) ps sg ex ord kind lvl idx row"
    by blast
  from price_search_cells [OF ps] obtain p sz where
    c: "1 \<le> lvl" "lvl \<le> 10" "cells row (level_col lvl ps) = Some p"
       "cells row (level_col lvl ss) = Some sz" "ord \<le> sz"
    by blast
  from m have f: "matched_hedge_side m = SIDE (h_rows df_h ! irow)" "matched_row m = row"
    "matched_hedge_this_fill_size m = ord" "matched_lob_level_interacted m = sg * int lvl"
    by (simp_all add: match_details_dict_def)
  from sc c f show "\<exists>ps ss sg lvl level_price level_size.
        side_columns (matched_hedge_side m) = Some (ps, ss, sg) \<and>
        1 \<le> lvl \<and> lvl \<le> 10 \<and> matched_lob_level_interacted m = sg * int lvl \<and>
        cells (matched_row m) (level_col lvl ps) = Some level_price \<and>
        cells (matched_row m) (level_col lvl ss) = Some level_size \<and>
        matched_hedge_this_fill_size m \<le> level_size"
    by auto
next
  fix row :: lob_row and pc sc ex ord
  assume "cells row pc = None \<or> cells row sc = None"
  then show "\<not> exact_accept ex ord pc sc row"
    by (auto simp: exact_accept_def split: option.splits)
next
  fix row :: lob_row and pc sc ex ord
  assume "cells row pc = None \<or> cells row sc = None"
  then show "\<not> fuzzy_accept tick ex ord pc sc row"
    by (auto simp: fuzzy_accept_def split: option.splits)
qed

text \<open>
  In the scenario the result is not empty, and the snapshot at position 1 has a level-2
  price of 100.50 but no level-2 size: neither pass accepts it.
\<close>

theorem C4_size_sufficiency_witness:
  "match_hedges_to_lob ex_hedge ex_lob ex_threshold ex_tick = Inr ex_result \<and>
   df_matched_result ex_result ! 1 \<in> set (df_matched_result ex_result) \<and>
   cells (lob_rows ex_lob ! 1) (level_col 2 ''-AskSize'') = None \<and>
   (\<exists>ps ss sg lvl level_price level_size.
      side_columns (matched_hedge_side (df_matched_result ex_result ! 1)) = Some (ps, ss, sg) \<and>
      1 \<le> lvl \<and> lvl \<le> 10 \<and>
      matched_lob_level_interacted (df_matched_result ex_result ! 1) = sg * int lvl \<and>
      cells (matched_row (df_matched_result ex_result ! 1)) (level_col lvl ps)
        = Some level_price \<and>
      cells (matched_row (df_matched_result ex_result ! 1)) (level_col lvl ss)
        = Some level_size \<and>
      matched_hedge_this_fill_size (df_matched_result ex_result ! 1) \<le> level_size) \<and>
   \<not> exact_accept (201 / 2) 5 (level_col 2 ''-AskPrice'') (level_col 2 ''-AskSize'')
       (lob_rows ex_lob ! 1) \<and>
   \<not> fuzzy_accept ex_tick (201 / 2) 5 (level_col 2 ''-AskPrice'') (level_col 2 ''-AskSize'')
       (lob_rows ex_lob ! 1)"
proof -
  have h1: "df_matched_result ex_result ! 1 \<in> set (df_matched_result ex_result)"
    by (rule nth_mem) (simp add: ex_result_length)
  have h2: "cells (lob_rows ex_lob ! 1) (level_col 2 ''-AskSize'') = None"
    by code_simp
  from C4_size_sufficiency [OF ex_run] ex_run h1 h2
  show ?thesis by blast
qed

subsection \<open>Outcomes of the scenario\<close>

lemma ex_event_1: "\<exists>m. match_event ex_hedge ex_lob ex_threshold ex_tick 1 = Inr (Matched m)"
proof -
  have "case match_event ex_hedge ex_lob ex_threshold ex_tick 1 of
          Inr (Matched m) \<Rightarrow> True | _ \<Rightarrow> False"
    by code_simp
  then show ?thesis by (simp split: sum.splits outcome.splits)
qed

lemma ex_event_2: "match_event ex_hedge ex_lob ex_threshold ex_tick 2 = Inr InvalidSide"
proof -
  have "case match_event ex_hedge ex_lob ex_threshold ex_tick 2 of
          Inr InvalidSide \<Rightarrow> True | _ \<Rightarrow> False"
    by code_simp
  then show ?thesis by (simp split: sum.splits outcome.splits)
qed

lemma ex_event_3: "match_event ex_hedge ex_lob ex_threshold ex_tick 3 = Inr NotAFillType"
proof -
  have "case match_event ex_hedge ex_lob ex_threshold ex_tick 3 of
          Inr NotAFillType \<Rightarrow> True | _ \<Rightarrow> False"
    by code_simp
  then show ?thesis by (simp split: sum.splits outcome.splits)
qed

lemma ex_event_4: "match_event ex_hedge ex_lob ex_threshold ex_tick 4 = Inr NoWindow"
proof -
  have "case match_event ex_hedge ex_lob ex_threshold ex_tick 4 of
          Inr NoWindow \<Rightarrow> True | _ \<Rightarrow> False"
    by code_simp
  then show ?thesis by (simp split: sum.splits outcome.splits)
qed

lemma ex_report:
  "printed_report ex_result =
   Some \<lparr>attempted = 5, total_matched = 3, exact_matches = 2, fuzzy_matches = 1,
         perc_fills_matched = Some 60\<rparr>"
  by code_simp

text \<open>
  The run on the frame whose second event has the least timestamp is ended by the
  exception that the subtraction of one second raises.
\<close>

lemma ex_out_of_range_raises:
  "match_hedges_to_lob ex_hedge_out_of_range ex_lob ex_threshold ex_tick = Inl OutOfBoundsDatetime"
proof -
  have "case match_hedges_to_lob ex_hedge_out_of_range ex_lob ex_threshold ex_tick of
          Inl OutOfBoundsDatetime \<Rightarrow> True | _ \<Rightarrow> False"
    by code_simp
  then show ?thesis by (simp split: sum.splits py_error.splits)
qed

subsection \<open>The fill-type filter\<close>

text \<open>
  Claim C6, as amended. In a frame that has the \<open>EXECTYPE\<close> column, an event whose
  type is neither 1 (partial fill) nor 2 (final fill) leaves the loop at the first test:
  its outcome is \<open>NotAFillType\<close> whatever the book, the threshold and the tick size
  are (no window is looked up and no price is searched), and the iteration changes
  neither the list of records nor any counter; every matched event, and every record of
  the result, then has type 1 or 2. In a frame without the column no event is skipped
  for its type, and the records carry no type.
\<close>

theorem C6_non_fill_skipped:
  "(has_EXECTYPE df_h \<longrightarrow>
      (\<forall>irow. EXECTYPE (h_rows df_h ! irow) \<noteq> Some 1 \<and>
              EXECTYPE (h_rows df_h ! irow) \<noteq> Some 2 \<longrightarrow>
         match_event df_h df_o T tick irow = Inr NotAFillType \<and>
         (\<forall>st. loop_body df_h df_o T tick irow st = Inr st)) \<and>
      (\<forall>irow m. match_event df_h df_o T tick irow = Inr (Matched m) \<longrightarrow>
         EXECTYPE (h_rows df_h ! irow) = Some 1 \<or> EXECTYPE (h_rows df_h ! irow) = Some 2) \<and>
      (\<forall>res. match_hedges_to_lob df_h df_o T tick = Inr res \<longrightarrow>
         (\<forall>m\<in>set (df_matched_result res).
            matched_hedge_exectype m = Some 1 \<or> matched_hedge_exectype m = Some 2))) \<and>
   (\<not> has_EXECTYPE df_h \<longrightarrow>
      (\<forall>irow. match_event df_h df_o T tick irow \<noteq> Inr NotAFillType) \<and>
      (\<forall>res. match_hedges_to_lob df_h df_o T tick = Inr res \<longrightarrow>
         (\<forall>m\<in>set (df_matched_result res). matched_hedge_exectype m = None)))"
proof (intro conjI impI allI ballI)
  fix irow
  assume h: "has_EXECTYPE df_h"
    and a: "EXECTYPE (h_rows df_h ! irow) \<noteq> Some 1 \<and> EXECTYPE (h_rows df_h ! irow) \<noteq> Some 2"
  then show n: "match_event df_h df_o T tick irow = Inr NotAFillType"
    by (simp add: match_event_NotAFillType exectype_is_fill_iff)
  fix st
  from n show "loop_body df_h df_o T tick irow st = Inr st"
    by (simp add: loop_body_def record_outcome_def)
next
  fix irow m
  assume h: "has_EXECTYPE df_h"
    and "match_event df_h df_o T tick irow = Inr (Matched m)"
  then have "match_event df_h df_o T tick irow \<noteq> Inr NotAFillType" by simp
  with h show "EXECTYPE (h_rows df_h ! irow) = Some 1 \<or> EXECTYPE (h_rows df_h ! irow) = Some 2"
    by (simp add: match_event_NotAFillType exectype_is_fill_iff)
next
  fix res m
  assume h: "has_EXECTYPE df_h"
    and r: "match_hedges_to_lob df_h df_o T tick = Inr res"
    and "m \<in> set (df_matched_result res)"
  then obtain irow where me: "match_event df_h df_o T tick irow = Inr (Matched m)"
    by (auto simp: engine_record_origin [OF r])
  from match_event_Matched [OF me] h
  have "exectype_is_fill (EXECTYPE (h_rows df_h ! irow))"
    and "matched_hedge_exectype m = EXECTYPE (h_rows df_h ! irow)"
    by (auto simp: match_details_dict_def)
  then show "matched_hedge_exectype m = Some 1 \<or> matched_hedge_exectype m = Some 2"
    by (simp add: exectype_is_fill_iff)
next
  fix irow
  assume "\<not> has_EXECTYPE df_h"
  then show "match_event df_h df_o T tick irow \<noteq> Inr NotAFillType"
    by (simp add: match_event_NotAFillType)
next
  fix res m
  assume h: "\<not> has_EXECTYPE df_h"
    and r: "match_hedges_to_lob df_h df_o T tick = Inr res"
    and "m \<in> set (df_matched_result res)"
  then obtain irow where me: "match_event df_h df_o T tick irow = Inr (Matched m)"
    by (auto simp: engine_record_origin [OF r])
  from match_event_Matched [OF me] h
  show "matched_hedge_exectype m = None"
    by (auto simp: match_details_dict_def)
qed

text \<open>
  Claim C6 as stated fails in a frame without the \<open>EXECTYPE\<close> column: its event,
  whose type denotes neither a partial nor a final fill (it has none), is a matching
  candidate and is matched.
\<close>

theorem C6_no_type_counterexample:
  "\<not> has_EXECTYPE ex_hedge_no_type \<and>
   EXECTYPE (h_rows ex_hedge_no_type ! 0) \<noteq> Some 1 \<and>
   EXECTYPE (h_rows ex_hedge_no_type ! 0) \<noteq> Some 2 \<and>
   (\<exists>m. match_event ex_hedge_no_type ex_lob ex_threshold ex_tick 0 = Inr (Matched m) \<and>
        match_type m = exact \<and> matched_hedge_exectype m = None)"
proof -
  have "case match_event ex_hedge_no_type ex_lob ex_threshold ex_tick 0 of
          Inr (Matched m) \<Rightarrow> match_type m = exact \<and> matched_hedge_exectype m = None
        | _ \<Rightarrow> False"
    by code_simp
  then have "\<exists>m. match_event ex_hedge_no_type ex_lob ex_threshold ex_tick 0 = Inr (Matched m) \<and>
        match_type m = exact \<and> matched_hedge_exectype m = None"
    by (simp split: sum.splits outcome.splits)
  then show ?thesis by (simp add: ex_hedge_no_type_def)
qed

text \<open>The fourth event of the scenario has type 0.\<close>

theorem C6_non_fill_skipped_witness:
  "has_EXECTYPE ex_hedge \<and>
   EXECTYPE (h_rows ex_hedge ! 3) \<noteq> Some 1 \<and> EXECTYPE (h_rows ex_hedge ! 3) \<noteq> Some 2 \<and>
   match_event ex_hedge ex_lob ex_threshold ex_tick 3 = Inr NotAFillType \<and>
   (\<forall>st. loop_body ex_hedge ex_lob ex_threshold ex_tick 3 st = Inr st) \<and>
   match_hedges_to_lob ex_hedge ex_lob ex_threshold ex_tick = Inr ex_result \<and>
   df_matched_result ex_result ! 0 \<in> set (df_matched_result ex_result) \<and>
   (matched_hedge_exectype (df_matched_result ex_result ! 0) = Some 1 \<or>
    matched_hedge_exectype (df_matched_result ex_result ! 0) = Some 2)"
proof -
  have h1: "has_EXECTYPE ex_hedge" by (simp add: ex_hedge_def)
  have h2: "EXECTYPE (h_rows ex_hedge ! 3) \<noteq> Some 1 \<and> EXECTYPE (h_rows ex_hedge ! 3) \<noteq> Some 2"
    by (simp add: ex_hedge_def)
  have h3: "df_matched_result ex_result ! 0 \<in> set (df_matched_result ex_result)"
    by (rule nth_mem) (simp add: ex_result_length)
  from C6_non_fill_skipped [of ex_hedge ex_lob ex_threshold ex_tick] h1 h2 h3 ex_run
  show ?thesis by blast
qed

subsection \<open>Locator errors\<close>




lemma ex_run_continues:
  "length (df_matched_result ex_result) = 3 \<and>
   matched_hedge_clordid (df_matched_result ex_result ! 2) = ''E'' \<and>
   original_lob_index (df_matched_result ex_result ! 2) = 2 \<and>
   match_type (df_matched_result ex_result ! 2) = exact"
  by code_simp

subsection \<open>The attempted-events counter\<close>

text \<open>
  Claim C10. The counter of attempted events at the end of the loop is the number of
  events that pass the fill-type filter. An event that passes it and is then skipped
  (no window, invalid side, bad fill size, missing price) or left unmatched increments
  the counter by one and adds no record. When the report is printed, its attempted
  count is that number, and it is the denominator of the printed match rate.
\<close>

theorem C10_attempted_includes_skipped:
  "(\<forall>st. run_loop df_h df_o T tick = Inr st \<longrightarrow>
      num_input_hedge_fill_events st =
        length (filter (\<lambda>ev. has_EXECTYPE df_h \<longrightarrow> EXECTYPE ev = Some 1 \<or> EXECTYPE ev = Some 2)
                  (h_rows df_h))) \<and>
   (\<forall>irow st out.
      match_event df_h df_o T tick irow = Inr out \<and>
      out \<in> {NoWindow, InvalidSide, BadFillSize, MissingPrice, Unmatched} \<longrightarrow>
      (\<exists>st'. loop_body df_h df_o T tick irow st = Inr st' \<and>
             num_input_hedge_fill_events st' = num_input_hedge_fill_events st + 1 \<and>
             matched_data_list st' = matched_data_list st)) \<and>
   (\<forall>res r. match_hedges_to_lob df_h df_o T tick = Inr res \<and> printed_report res = Some r \<longrightarrow>
      attempted r =
        length (filter (\<lambda>ev. has_EXECTYPE df_h \<longrightarrow> EXECTYPE ev = Some 1 \<or> EXECTYPE ev = Some 2)
                  (h_rows df_h)) \<and>
      perc_fills_matched r = Some (of_nat (total_matched r) / of_nat (attempted r) * 100))"
proof (intro conjI allI impI)
  fix st
  assume "run_loop df_h df_o T tick = Inr st"
  then show "num_input_hedge_fill_events st =
        length (filter (\<lambda>ev. has_EXECTYPE df_h \<longrightarrow> EXECTYPE ev = Some 1 \<or> EXECTYPE ev = Some 2)
                  (h_rows df_h))"
    by (rule run_loop_attempted)
next
  fix irow st out
  assume a: "match_event df_h df_o T tick irow = Inr out \<and>
      out \<in> {NoWindow, InvalidSide, BadFillSize, MissingPrice, Unmatched}"
  then have "loop_body df_h df_o T tick irow st = Inr (record_outcome out st)"
    by (simp add: loop_body_def)
  moreover from a have "num_input_hedge_fill_events (record_outcome out st)
      = num_input_hedge_fill_events st + 1"
    by (auto simp: record_outcome_attempted)
  moreover from a have "matched_data_list (record_outcome out st) = matched_data_list st"
    by (auto simp: record_outcome_records)
  ultimately show "\<exists>st'. loop_body df_h df_o T tick irow st = Inr st' \<and>
             num_input_hedge_fill_events st' = num_input_hedge_fill_events st + 1 \<and>
             matched_data_list st' = matched_data_list st"
    by blast
next
  fix res r
  assume a: "match_hedges_to_lob df_h df_o T tick = Inr res \<and> printed_report res = Some r"
  then obtain st where st: "run_loop df_h df_o T tick = Inr st"
    and ne: "matched_data_list st \<noteq> []"
    and rr: "r = \<lparr>attempted = num_input_hedge_fill_events st,
                 total_matched = length (matched_data_list st),
                 exact_matches = num_exact_price_matches st,
                 fuzzy_matches = num_fuzzy_price_matches st,
                 perc_fills_matched =
                   (if num_input_hedge_fill_events st > 0
                    then Some (of_nat (length (matched_data_list st))
                               / of_nat (num_input_hedge_fill_events st) * 100)
                    else None)\<rparr>"
    by (auto simp: match_hedges_to_lob_def no_result_def Let_def split: if_splits sum.splits)
  from rr show "attempted r =
        length (filter (\<lambda>ev. has_EXECTYPE df_h \<longrightarrow> EXECTYPE ev = Some 1 \<or> EXECTYPE ev = Some 2)
                  (h_rows df_h))"
    by (simp add: run_loop_attempted [OF st])
  from ne run_loop_counts [OF st]
  have "0 < num_input_hedge_fill_events st" by (cases "matched_data_list st") auto
  with rr show "perc_fills_matched r = Some (of_nat (total_matched r) / of_nat (attempted r) * 100)"
    by simp
qed

text \<open>
  In the scenario five of the six events pass the filter; the third (invalid side) and
  the fifth (no timestamp) are among them.
\<close>

lemma ex_loop_returns: "\<exists>st. run_loop ex_hedge ex_lob ex_threshold ex_tick = Inr st"
proof (cases "run_loop ex_hedge ex_lob ex_threshold ex_tick")
  case (Inl exn)
  then have "match_hedges_to_lob ex_hedge ex_lob ex_threshold ex_tick = Inl exn"
    by (simp add: match_hedges_to_lob_def lob_empty_def ex_hedge_def ex_lob_def)
  with ex_run show ?thesis by simp
next
  case (Inr st)
  then show ?thesis by blast
qed

theorem C10_attempted_includes_skipped_witness:
  "match_event ex_hedge ex_lob ex_threshold ex_tick 2 = Inr InvalidSide \<and>
   match_event ex_hedge ex_lob ex_threshold ex_tick 4 = Inr NoWindow \<and>
   match_hedges_to_lob ex_hedge ex_lob ex_threshold ex_tick = Inr ex_result \<and>
   printed_report ex_result =
     Some \<lparr>attempted = 5, total_matched = 3, exact_matches = 2, fuzzy_matches = 1,
           perc_fills_matched = Some 60\<rparr> \<and>
   length (filter (\<lambda>ev. has_EXECTYPE ex_hedge \<longrightarrow> EXECTYPE ev = Some 1 \<or> EXECTYPE ev = Some 2)
             (h_rows ex_hedge)) = 5 \<and>
   (\<exists>st. run_loop ex_hedge ex_lob ex_threshold ex_tick = Inr st \<and>
         num_input_hedge_fill_events st = 5) \<and>
   (\<exists>st'. loop_body ex_hedge ex_lob ex_threshold ex_tick 2 init_state = Inr st' \<and>
          num_input_hedge_fill_events st' = num_input_hedge_fill_events init_state + 1 \<and>
          matched_data_list st' = matched_data_list init_state) \<and>
   (\<exists>st'. loop_body ex_hedge ex_lob ex_threshold ex_tick 4 init_state = Inr st' \<and>
          num_input_hedge_fill_events st' = num_input_hedge_fill_events init_state + 1 \<and>
          matched_data_list st' = matched_data_list init_state)"
proof -
  note th = C10_attempted_includes_skipped [of ex_hedge ex_lob ex_threshold ex_tick]
  have n: "length (filter (\<lambda>ev. has_EXECTYPE ex_hedge \<longrightarrow>
           EXECTYPE ev = Some 1 \<or> EXECTYPE ev = Some 2) (h_rows ex_hedge)) = 5"
    by (simp add: ex_hedge_def)
  from th ex_loop_returns n
  have a: "\<exists>st. run_loop ex_hedge ex_lob ex_threshold ex_tick = Inr st \<and>
         num_input_hedge_fill_events st = 5"
    by metis
  from th ex_event_2
  have b: "\<exists>st'. loop_body ex_hedge ex_lob ex_threshold ex_tick 2 init_state = Inr st' \<and>
          num_input_hedge_fill_events st' = num_input_hedge_fill_events init_state + 1 \<and>
          matched_data_list st' = matched_data_list init_state"
    by blast
  from th ex_event_4
  have c: "\<exists>st'. loop_body ex_hedge ex_lob ex_threshold ex_tick 4 init_state = Inr st' \<and>
          num_input_hedge_fill_events st' = num_input_hedge_fill_events init_state + 1 \<and>
          matched_data_list st' = matched_data_list init_state"
    by blast
  from a b c n ex_event_2 ex_event_4 ex_run ex_report show ?thesis by blast
qed

subsection \<open>The report\<close>

lemma engine_result_cases:
  assumes "match_hedges_to_lob df_h df_o T tick = Inr res"
  shows "(df_matched_result res = [] \<and> printed_report res = None) \<or>
         (\<exists>st. run_loop df_h df_o T tick = Inr st \<and> matched_data_list st \<noteq> [] \<and>
            res =
              \<lparr>df_matched_result = matched_data_list st,
               printed_report = Some
                 \<lparr>attempted = num_input_hedge_fill_events st,
                  total_matched = length (matched_data_list st),
                  exact_matches = num_exact_price_matches st,
                  fuzzy_matches = num_fuzzy_price_matches st,
                  perc_fills_matched =
                    (if num_input_hedge_fill_events st > 0
                     then Some (of_nat (length (matched_data_list st))
                                / of_nat (num_input_hedge_fill_events st) * 100)
                     else None)\<rparr>\<rparr>)"
  using assms
  by (auto simp: match_hedges_to_lob_def no_result_def Let_def split: if_splits sum.splits)

text \<open>
  Claim C8, as amended. The engine prints its report exactly when the result has at
  least one record. The report then gives the number of attempted events (the events
  that pass the fill-type filter, a positive number), the number of records, the numbers
  of exact and of fuzzy records, which add up to it, and the match rate
  \<open>100 * matched / attempted\<close>. A run without a record, and so every run with no
  attempted event, prints no report and no rate.
\<close>

theorem C8_report_when_matched:
  assumes "match_hedges_to_lob df_h df_o T tick = Inr res"
  shows "(printed_report res = None \<longleftrightarrow> df_matched_result res = []) \<and>
   (length (filter (\<lambda>ev. has_EXECTYPE df_h \<longrightarrow> EXECTYPE ev = Some 1 \<or> EXECTYPE ev = Some 2)
              (h_rows df_h)) = 0 \<longrightarrow>
      printed_report res = None) \<and>
   (\<forall>r. printed_report res = Some r \<longrightarrow>
      attempted r =
        length (filter (\<lambda>ev. has_EXECTYPE df_h \<longrightarrow> EXECTYPE ev = Some 1 \<or> EXECTYPE ev = Some 2)
                  (h_rows df_h)) \<and>
      0 < attempted r \<and>
      total_matched r = length (df_matched_result res) \<and>
      exact_matches r = length (filter (\<lambda>m. match_type m = exact) (df_matched_result res)) \<and>
      fuzzy_matches r = length (filter (\<lambda>m. match_type m = fuzzy) (df_matched_result res)) \<and>
      total_matched r = exact_matches r + fuzzy_matches r \<and>
      perc_fills_matched r = Some (100 * of_nat (total_matched r) / of_nat (attempted r)))"
proof -
  from engine_result_cases [OF assms]
  show ?thesis
  proof
    assume "df_matched_result res = [] \<and> printed_report res = None"
    then show ?thesis by simp
  next
    assume "\<exists>st. run_loop df_h df_o T tick = Inr st \<and> matched_data_list st \<noteq> [] \<and>
            res =
              \<lparr>df_matched_result = matched_data_list st,
               printed_report = Some
                 \<lparr>attempted = num_input_hedge_fill_events st,
                  total_matched = length (matched_data_list st),
                  exact_matches = num_exact_price_matches st,
                  fuzzy_matches = num_fuzzy_price_matches st,
                  perc_fills_matched =
                    (if num_input_hedge_fill_events st > 0
                     then Some (of_nat (length (matched_data_list st))
                                / of_nat (num_input_hedge_fill_events st) * 100)
                     else None)\<rparr>\<rparr>"
    then obtain st where st: "run_loop df_h df_o T tick = Inr st"
      and ne: "matched_data_list st \<noteq> []"
      and res: "res =
              \<lparr>df_matched_result = matched_data_list st,
               printed_report = Some
                 \<lparr>attempted = num_input_hedge_fill_events st,
                  total_matched = length (matched_data_list st),
                  exact_matches = num_exact_price_matches st,
                  fuzzy_matches = num_fuzzy_price_matches st,
                  perc_fills_matched =
                    (if num_input_hedge_fill_events st > 0
                     then Some (of_nat (length (matched_data_list st))
                                / of_nat (num_input_hedge_fill_events st) * 100)
                     else None)\<rparr>\<rparr>"
      by blast
    note cnt = run_loop_counts [OF st]
    note kinds = run_loop_kinds [OF st]
    note att = run_loop_attempted [OF st]
    from ne cnt have pos: "0 < num_input_hedge_fill_events st"
      by (cases "matched_data_list st") auto
    have eq: "df_matched_result res = matched_data_list st" by (subst res) simp
    have rep: "printed_report res = Some
              \<lparr>attempted = num_input_hedge_fill_events st,
               total_matched = length (matched_data_list st),
               exact_matches = num_exact_price_matches st,
               fuzzy_matches = num_fuzzy_price_matches st,
               perc_fills_matched =
                 Some (of_nat (length (matched_data_list st))
                             / of_nat (num_input_hedge_fill_events st) * 100)\<rparr>"
      using pos by (subst res) simp
    have c1: "printed_report res = None \<longleftrightarrow> df_matched_result res = []"
      using ne eq rep by simp
    have c2: "length (filter (\<lambda>ev. has_EXECTYPE df_h \<longrightarrow> EXECTYPE ev = Some 1 \<or> EXECTYPE ev = Some 2)
              (h_rows df_h)) = 0 \<longrightarrow> printed_report res = None"
      using pos att by simp
    have c3: "attempted r =
        length (filter (\<lambda>ev. has_EXECTYPE df_h \<longrightarrow> EXECTYPE ev = Some 1 \<or> EXECTYPE ev = Some 2)
                  (h_rows df_h)) \<and>
      0 < attempted r \<and>
      total_matched r = length (df_matched_result res) \<and>
      exact_matches r = length (filter (\<lambda>m. match_type m = exact) (df_matched_result res)) \<and>
      fuzzy_matches r = length (filter (\<lambda>m. match_type m = fuzzy) (df_matched_result res)) \<and>
      total_matched r = exact_matches r + fuzzy_matches r \<and>
      perc_fills_matched r = Some (100 * of_nat (total_matched r) / of_nat (attempted r))"
      if "printed_report res = Some r" for r
    proof -
      from that rep have r: "r = \<lparr>attempted = num_input_hedge_fill_events st,
               total_matched = length (matched_data_list st),
               exact_matches = num_exact_price_matches st,
               fuzzy_matches = num_fuzzy_price_matches st,
               perc_fills_matched =
                 Some (of_nat (length (matched_data_list st))
                             / of_nat (num_input_hedge_fill_events st) * 100)\<rparr>"
        by simp
      show ?thesis unfolding r eq using pos cnt kinds att by simp
    qed
    from c1 c2 c3 show ?thesis by blast
  qed
qed

text \<open>
  Claim C8 as stated fails. A run whose only event is not a fill has no attempted event
  and prints no report, so no rate of 0; a run with two attempted events and no match
  prints no report either.
\<close>

theorem C8_no_report_counterexample:
  "(\<exists>st. run_loop ex_hedge_no_fill ex_lob ex_threshold ex_tick = Inr st \<and>
         num_input_hedge_fill_events st = 0) \<and>
   (\<exists>res. match_hedges_to_lob ex_hedge_no_fill ex_lob ex_threshold ex_tick = Inr res \<and>
          printed_report res = None) \<and>
   (\<exists>st. run_loop ex_hedge_bad_qty ex_lob ex_threshold ex_tick = Inr st \<and>
         num_input_hedge_fill_events st = 2) \<and>
   (\<exists>res. match_hedges_to_lob ex_hedge_bad_qty ex_lob ex_threshold ex_tick = Inr res \<and>
          printed_report res = None)"
proof -
  have a: "case run_loop ex_hedge_no_fill ex_lob ex_threshold ex_tick of
             Inr st \<Rightarrow> num_input_hedge_fill_events st = 0 | Inl _ \<Rightarrow> False"
    by code_simp
  have b: "case match_hedges_to_lob ex_hedge_no_fill ex_lob ex_threshold ex_tick of
             Inr res \<Rightarrow> printed_report res = None | Inl _ \<Rightarrow> False"
    by code_simp
  have c: "case run_loop ex_hedge_bad_qty ex_lob ex_threshold ex_tick of
             Inr st \<Rightarrow> num_input_hedge_fill_events st = 2 | Inl _ \<Rightarrow> False"
    by code_simp
  have d: "case match_hedges_to_lob ex_hedge_bad_qty ex_lob ex_threshold ex_tick of
             Inr res \<Rightarrow> printed_report res = None | Inl _ \<Rightarrow> False"
    by code_simp
  from a b c d show ?thesis by (simp split: sum.splits)
qed

text \<open>The report of the scenario: 3 of 5 attempted events matched, 60 percent.\<close>

theorem C8_report_when_matched_witness:
  "match_hedges_to_lob ex_hedge ex_lob ex_threshold ex_tick = Inr ex_result \<and>
   printed_report ex_result =
     Some \<lparr>attempted = 5, total_matched = 3, exact_matches = 2, fuzzy_matches = 1,
           perc_fills_matched = Some 60\<rparr> \<and>
   df_matched_result ex_result \<noteq> [] \<and>
   length (filter (\<lambda>ev. has_EXECTYPE ex_hedge \<longrightarrow> EXECTYPE ev = Some 1 \<or> EXECTYPE ev = Some 2)
             (h_rows ex_hedge)) = 5 \<and>
   length (df_matched_result ex_result) = 3 \<and>
   length (filter (\<lambda>m. match_type m = exact) (df_matched_result ex_result)) = 2 \<and>
   length (filter (\<lambda>m. match_type m = fuzzy) (df_matched_result ex_result)) = 1 \<and>
   Some (60::rat) = Some (100 * of_nat 3 / of_nat 5)"
proof -
  from C8_report_when_matched [OF ex_run] ex_report ex_run
  show ?thesis by auto
qed

subsection \<open>The fill size\<close>

text \<open>
  Claim C5, as amended. In a frame that has the \<open>CUMQTY\<close> column, the fill size of
  an event is its cumulative quantity minus that of the event just before it when that
  event has the same order identifier (undefined when either quantity is undefined);
  otherwise it is the event's own cumulative quantity when that is defined and positive,
  and 0 when it is not. A matched event has a defined, positive fill size, which is the
  one its record carries; an event whose fill size is undefined or not positive is never
  matched.
\<close>

theorem C5_fill_size:
  assumes "has_CUMQTY df_h"
  shows "(0 < irow \<and> CLORDID (h_rows df_h ! irow) = CLORDID (h_rows df_h ! (irow - 1)) \<longrightarrow>
            (\<forall>c p. CUMQTY (h_rows df_h ! irow) = Some c \<and>
                   CUMQTY (h_rows df_h ! (irow - 1)) = Some p \<longrightarrow>
                   ord_size_this_fill df_h irow = Some (c - p)) \<and>
            (CUMQTY (h_rows df_h ! irow) = None \<or> CUMQTY (h_rows df_h ! (irow - 1)) = None \<longrightarrow>
                   ord_size_this_fill df_h irow = None)) \<and>
         (\<not> (0 < irow \<and> CLORDID (h_rows df_h ! irow) = CLORDID (h_rows df_h ! (irow - 1))) \<longrightarrow>
            (\<forall>c. CUMQTY (h_rows df_h ! irow) = Some c \<and> 0 < c \<longrightarrow>
                 ord_size_this_fill df_h irow = Some c) \<and>
            (CUMQTY (h_rows df_h ! irow) = None \<or>
             (\<exists>c. CUMQTY (h_rows df_h ! irow) = Some c \<and> c \<le> 0) \<longrightarrow>
                 ord_size_this_fill df_h irow = Some 0)) \<and>
         (\<forall>m. match_event df_h df_o T tick irow = Inr (Matched m) \<longrightarrow>
            ord_size_this_fill df_h irow = Some (matched_hedge_this_fill_size m) \<and>
            0 < matched_hedge_this_fill_size m) \<and>
         (ord_size_this_fill df_h irow = None \<or>
          (\<exists>q. ord_size_this_fill df_h irow = Some q \<and> q \<le> 0) \<longrightarrow>
            (\<forall>m. match_event df_h df_o T tick irow \<noteq> Inr (Matched m)))"
proof -
  have matched: "ord_size_this_fill df_h irow = Some (matched_hedge_this_fill_size m) \<and>
            0 < matched_hedge_this_fill_size m"
    if "match_event df_h df_o T tick irow = Inr (Matched m)" for m
    using match_event_Matched [OF that] by (auto simp: match_details_dict_def)
  have a: "0 < irow \<and> CLORDID (h_rows df_h ! irow) = CLORDID (h_rows df_h ! (irow - 1)) \<longrightarrow>
            (\<forall>c p. CUMQTY (h_rows df_h ! irow) = Some c \<and>
                   CUMQTY (h_rows df_h ! (irow - 1)) = Some p \<longrightarrow>
                   ord_size_this_fill df_h irow = Some (c - p)) \<and>
            (CUMQTY (h_rows df_h ! irow) = None \<or> CUMQTY (h_rows df_h ! (irow - 1)) = None \<longrightarrow>
                   ord_size_this_fill df_h irow = None)"
    using assms by (auto simp: ord_size_this_fill_def Let_def num_sub_def split: option.splits)
  have b: "\<not> (0 < irow \<and> CLORDID (h_rows df_h ! irow) = CLORDID (h_rows df_h ! (irow - 1))) \<longrightarrow>
            (\<forall>c. CUMQTY (h_rows df_h ! irow) = Some c \<and> 0 < c \<longrightarrow>
                 ord_size_this_fill df_h irow = Some c) \<and>
            (CUMQTY (h_rows df_h ! irow) = None \<or>
             (\<exists>c. CUMQTY (h_rows df_h ! irow) = Some c \<and> c \<le> 0) \<longrightarrow>
                 ord_size_this_fill df_h irow = Some 0)"
    using assms by (auto simp: ord_size_this_fill_def Let_def num_gt_def)
  have c: "ord_size_this_fill df_h irow = None \<or>
          (\<exists>q. ord_size_this_fill df_h irow = Some q \<and> q \<le> 0) \<longrightarrow>
            (\<forall>m. match_event df_h df_o T tick irow \<noteq> Inr (Matched m))"
    using matched by fastforce
  from a b c matched show ?thesis by blast
qed

text \<open>
  Claim C5 as stated fails for an event without a predecessor of the same order: when
  its cumulative quantity is missing or negative, the fill size is 0, not that
  quantity.
\<close>

theorem C5_fill_size_counterexample:
  "CUMQTY (h_rows ex_hedge_bad_qty ! 0) = None \<and>
   ord_size_this_fill ex_hedge_bad_qty 0 = Some 0 \<and>
   CLORDID (h_rows ex_hedge_bad_qty ! 1) \<noteq> CLORDID (h_rows ex_hedge_bad_qty ! 0) \<and>
   CUMQTY (h_rows ex_hedge_bad_qty ! 1) = Some (- 3) \<and>
   ord_size_this_fill ex_hedge_bad_qty 1 = Some 0"
  by code_simp

text \<open>
  The first two events of the scenario belong to the same order, with cumulative
  quantities 5 and 12: the fill size of the second is 7.
\<close>

theorem C5_fill_size_witness:
  "has_CUMQTY ex_hedge \<and>
   (0::nat) < 1 \<and> CLORDID (h_rows ex_hedge ! 1) = CLORDID (h_rows ex_hedge ! (1 - 1)) \<and>
   CUMQTY (h_rows ex_hedge ! 1) = Some 12 \<and> CUMQTY (h_rows ex_hedge ! (1 - 1)) = Some 5 \<and>
   ord_size_this_fill ex_hedge 1 = Some (12 - 5) \<and>
   (\<exists>m. match_event ex_hedge ex_lob ex_threshold ex_tick 1 = Inr (Matched m) \<and>
      ord_size_this_fill ex_hedge 1 = Some (matched_hedge_this_fill_size m) \<and>
      0 < matched_hedge_this_fill_size m)"
proof -
  have h1: "has_CUMQTY ex_hedge" by (simp add: ex_hedge_def)
  have h2: "(0::nat) < 1 \<and> CLORDID (h_rows ex_hedge ! 1) = CLORDID (h_rows ex_hedge ! (1 - 1))"
    by (simp add: ex_hedge_def)
  have h3: "CUMQTY (h_rows ex_hedge ! 1) = Some 12 \<and> CUMQTY (h_rows ex_hedge ! (1 - 1)) = Some 5"
    by (simp add: ex_hedge_def)
  from C5_fill_size [OF h1, of 1 ex_lob ex_threshold ex_tick] h1 h2 h3 ex_event_1
  show ?thesis by blast
qed

lemma ex_second_fill_size:
  "matched_hedge_this_fill_size (df_matched_result ex_result ! 1) = 7"
  by code_simp

section \<open>Properties of the LOB preparation\<close>

text \<open>
  The test \<open>is_monotonic_increasing\<close> is true of every sorted list, equal neighbours
  included, so after \<open>sort_values\<close> the branch that drops duplicates is never taken:
  the prepared rows are the sorted rows of the input, all of them.
\<close>

lemma is_monotonic_increasing_sorted: "is_monotonic_increasing xs = sorted xs"
  by (induction xs rule: is_monotonic_increasing.induct)
     (simp_all only: is_monotonic_increasing.simps sorted0 sorted1 sorted2)

lemma sort_values_Nil: "sort_values [] = []"
  by (simp add: sort_values_def)

lemma sort_values_monotonic: "is_monotonic_increasing (map lob_time (sort_values rows))"
  by (simp add: is_monotonic_increasing_sorted sort_values_def)

lemma prepare_rows:
  assumes "\<not> lob_empty df_o" and "''Date-Time'' \<in> set (lob_columns df_o)"
  shows "lob_rows (filter_and_prepare_lob_data df_o specific_ric) =
           sort_values
             (if specific_ric \<noteq> [] \<and> ''Alias Underlying RIC'' \<in> set (lob_columns df_o)
              then filter (\<lambda>r. alias_ric r = specific_ric) (lob_rows df_o)
              else lob_rows df_o)"
  using assms
  by (auto simp: filter_and_prepare_lob_data_def Let_def sort_values_monotonic lob_empty_def
                 sort_values_Nil)

lemma prepare_sorted:
  assumes "\<not> lob_empty df_o" and "''Date-Time'' \<in> set (lob_columns df_o)"
  shows "sorted (map lob_time (lob_rows (filter_and_prepare_lob_data df_o specific_ric)))"
  unfolding prepare_rows [OF assms] by (simp add: sort_values_def)

lemma prepare_keeps_duplicates:
  assumes "\<not> lob_empty df_o" and "''Date-Time'' \<in> set (lob_columns df_o)"
  shows "length (lob_rows (filter_and_prepare_lob_data df_o [])) = length (lob_rows df_o)"
  unfolding prepare_rows [OF assms] by (simp add: sort_values_def)

text \<open>
  Claim C9 at a raw book in which two snapshots carry the same timestamp: the prepared
  sequence is sorted, and both snapshots are still in it.
\<close>

theorem C9_duplicate_timestamps_kept:
  "map lob_time (lob_rows ex_raw_lob) = [10200000000, 9000000000, 10200000000] \<and>
   map lob_time (lob_rows (filter_and_prepare_lob_data ex_raw_lob ''FFIH4''))
     = [9000000000, 10200000000, 10200000000] \<and>
   \<not> distinct (map lob_time (lob_rows (filter_and_prepare_lob_data ex_raw_lob ''FFIH4'')))"
  by code_simp

end
